theory Spec2Isabelle
  imports Complex_Main "HOL-Library.AList"
begin

section \<open>JavaScript values\<close>

text \<open>
  The router (the third script of \<^verbatim>\<open>src/workers/liboqs_worker.js\<close>, from
  \<^verbatim>\<open>const PROTOCOL_VERSION = 1\<close> on) receives structured-clone data and inspects it
  with \<^verbatim>\<open>typeof\<close>, \<^verbatim>\<open>Array.isArray\<close>, \<^verbatim>\<open>Number.isFinite\<close> and
  truthiness tests, so messages are modelled as untyped values.

  A number is a finite value (every finite double is a rational), NaN or an infinity.
  A string is the list of its code units, so \<open>length\<close> is \<^verbatim>\<open>.length\<close>.  An object
  is the list of its own properties in insertion order, each key listed once.
\<close>

datatype jsnum = Finite rat | NaN | Infinity | NegInfinity

datatype jsval =
    JUndefined
  | JNull
  | JBool bool
  | JNumber jsnum
  | JString string
  | JArray "jsval list"
  | JObject "(string \<times> jsval) list"

text \<open>\<^verbatim>\<open>function isObject(v) { return v !== null && typeof v === "object" && !Array.isArray(v); }\<close>\<close>

fun isObject :: "jsval \<Rightarrow> bool" where
  "isObject (JObject kvs) = True"
| "isObject v = False"

text \<open>\<^verbatim>\<open>Array.isArray(v)\<close>\<close>

fun isArray :: "jsval \<Rightarrow> bool" where
  "isArray (JArray xs) = True"
| "isArray v = False"

text \<open>
  Property read \<^verbatim>\<open>v.k\<close>.  The router reads properties of values it has checked with
  \<open>isObject\<close> only; a missing property reads as \<^verbatim>\<open>undefined\<close>.
\<close>

fun getp :: "jsval \<Rightarrow> string \<Rightarrow> jsval" where
  "getp (JObject kvs) k = (case map_of kvs k of Some v \<Rightarrow> v | None \<Rightarrow> JUndefined)"
| "getp v k = JUndefined"

text \<open>Property write \<^verbatim>\<open>v.k = x\<close> on an object.\<close>

fun setp :: "jsval \<Rightarrow> string \<Rightarrow> jsval \<Rightarrow> jsval" where
  "setp (JObject kvs) k x = JObject (AList.update k x kvs)"
| "setp v k x = v"

text \<open>Truthiness, as tested by \<^verbatim>\<open>if (v)\<close>, \<^verbatim>\<open>!v\<close> and \<^verbatim>\<open>v || w\<close>.\<close>

fun truthy :: "jsval \<Rightarrow> bool" where
  "truthy JUndefined = False"
| "truthy JNull = False"
| "truthy (JBool b) = b"
| "truthy (JNumber (Finite q)) = (q \<noteq> 0)"
| "truthy (JNumber NaN) = False"
| "truthy (JNumber Infinity) = True"
| "truthy (JNumber NegInfinity) = True"
| "truthy (JString s) = (s \<noteq> [])"
| "truthy (JArray xs) = True"
| "truthy (JObject kvs) = True"

text \<open>\<^verbatim>\<open>v || w\<close>\<close>

definition orElse :: "jsval \<Rightarrow> jsval \<Rightarrow> jsval" where
  "orElse v w = (if truthy v then v else w)"

text \<open>\<^verbatim>\<open>s.startsWith(p)\<close>: \<open>p\<close> is a literal prefix of \<open>s\<close>.\<close>

definition startsWith :: "string \<Rightarrow> string \<Rightarrow> bool" where
  "startsWith s p = (take (length p) s = p)"

text \<open>
  \<^verbatim>\<open>xs.sort(cmp)\<close>.  The language requires the sort to be stable: where \<open>cmp\<close>
  gives 0 the elements keep their order.  Insertion from the right is such a sort.
\<close>

fun insertBy :: "('a \<Rightarrow> 'a \<Rightarrow> int) \<Rightarrow> 'a \<Rightarrow> 'a list \<Rightarrow> 'a list" where
  "insertBy cmp x [] = [x]"
| "insertBy cmp x (y # ys) = (if cmp x y \<le> 0 then x # y # ys else y # insertBy cmp x ys)"

fun arraySort :: "('a \<Rightarrow> 'a \<Rightarrow> int) \<Rightarrow> 'a list \<Rightarrow> 'a list" where
  "arraySort cmp [] = []"
| "arraySort cmp (x # xs) = insertBy cmp x (arraySort cmp xs)"

text \<open>\<^verbatim>\<open>s.replace(/c/g, r)\<close> for a one-character pattern \<open>c\<close>.\<close>

fun replaceAll :: "char \<Rightarrow> string \<Rightarrow> string \<Rightarrow> string" where
  "replaceAll c r [] = []"
| "replaceAll c r (x # xs) = (if x = c then r @ replaceAll c r xs else x # replaceAll c r xs)"

text \<open>\<^verbatim>\<open>s.includes(t)\<close>: \<open>t\<close> occurs in \<open>s\<close> as a contiguous piece.\<close>

fun stringIncludes :: "string \<Rightarrow> string \<Rightarrow> bool" where
  "stringIncludes [] t = (t = [])"
| "stringIncludes (x # xs) t = (startsWith (x # xs) t \<or> stringIncludes xs t)"

section \<open>Router state\<close>

text \<open>
  \<^verbatim>\<open>
  const state = {
    requestTimeoutMs: DEFAULT_TIMEOUT_MS,
    routes: [], // [{ prefix, worker }]
    workerDefs: new Map(), // workerName -> { url, mode, type, config }
    workers: new Map(), // workerName -> workerInfo
    pending: new Map(), // requestId -> { workerName, timeoutId }
    activeLegacyByWorker: new Map(), // workerName -> requestId
  };
  \<close>
  A \<^verbatim>\<open>Map\<close> keeps its keys in insertion order (\<^verbatim>\<open>failPendingForWorker\<close> iterates
  one), so each is an association list: \<open>map_of\<close> is \<^verbatim>\<open>get\<close>, \<open>AList.update\<close> is
  \<^verbatim>\<open>set\<close> and \<open>AList.delete\<close> is \<^verbatim>\<open>delete\<close>.
\<close>

record route =
  prefix :: string
  worker :: string

record workerDef =
  url :: string
  def_mode :: string
  def_type :: string
  config :: jsval

text \<open>
  A worker session.  The \<^verbatim>\<open>worker\<close> handle is identified by the session name and
  \<^verbatim>\<open>startedAt\<close> (a clock reading that nothing reads back) is left out.
\<close>

record workerInfo =
  name :: string
  mode :: string
  ready :: bool

record pendingEntry =
  workerName :: string
  timeoutId :: nat

text \<open>
  What the router posts.  The fields \<^verbatim>\<open>v\<close> (always \<^verbatim>\<open>PROTOCOL_VERSION\<close>) and
  \<^verbatim>\<open>ts\<close> (a clock reading) of every envelope are left out.
\<close>

datatype effect =
    ErrorEnvelope jsval string string
    \<comment> \<open>\<^verbatim>\<open>{kind: "error", id, code, message}\<close>\<close>
  | HxResponse string rat string jsval
    \<comment> \<open>\<^verbatim>\<open>{kind: "hx.response", id, status, body, headers}\<close>, in the order of
        \<^verbatim>\<open>sendHxResponse\<close>'s parameters\<close>
  | EventEnvelope jsval jsval jsval
    \<comment> \<open>\<^verbatim>\<open>{kind: "event", id, event, data}\<close>\<close>
  | ControlReady jsval "route list" nat int
    \<comment> \<open>\<^verbatim>\<open>{kind: "control.ready", id, routes, workerCount, requestTimeoutMs}\<close>\<close>
  | ControlPong jsval
    \<comment> \<open>\<^verbatim>\<open>{kind: "control.pong", id}\<close>\<close>
  | NewWorker string string string
    \<comment> \<open>\<^verbatim>\<open>new Worker(def.url, { type: def.type, name: `router:${workerName}` })\<close>:
        worker name, url, type\<close>
  | PostToWorker string jsval
    \<comment> \<open>\<^verbatim>\<open>worker.postMessage(msg)\<close> on the session of that name\<close>

text \<open>
  The router's \<^verbatim>\<open>state\<close> together with what it shares with its host: the table of
  armed timers (\<^verbatim>\<open>setTimeout\<close> stores the request id its callback closes over and
  the delay; \<^verbatim>\<open>clearTimeout\<close> and firing remove the entry), the next timer handle,
  and the messages posted so far, oldest first.
\<close>

record router =
  requestTimeoutMs :: int
  routes :: "route list"
  workerDefs :: "(string \<times> workerDef) list"
  workers :: "(string \<times> workerInfo) list"
  pending :: "(string \<times> pendingEntry) list"
  activeLegacyByWorker :: "(string \<times> string) list"
  timers :: "nat \<rightharpoonup> string \<times> int"
  nextTimeoutId :: nat
  sent :: "effect list"

text \<open>\<^verbatim>\<open>const DEFAULT_TIMEOUT_MS = 30000;\<close> and the initial \<^verbatim>\<open>state\<close>.\<close>

definition DEFAULT_TIMEOUT_MS :: int where
  "DEFAULT_TIMEOUT_MS = 30000"

definition initialState :: router where
  "initialState = \<lparr> requestTimeoutMs = DEFAULT_TIMEOUT_MS, routes = [], workerDefs = [],
     workers = [], pending = [], activeLegacyByWorker = [], timers = Map.empty,
     nextTimeoutId = 1, sent = [] \<rparr>"

section \<open>Routes\<close>

text \<open>
  \<^verbatim>\<open>
  function normalizeRoutes(routes) {
    if (!Array.isArray(routes)) return [];
    const clean = routes
      .filter((r) => isObject(r) && typeof r.prefix === "string" && typeof r.worker === "string")
      .map((r) => ({ prefix: r.prefix, worker: r.worker }));

    // Longest prefix first for deterministic best-match routing.
    clean.sort((a, b) => b.prefix.length - a.prefix.length);
    return clean;
  }
  \<close>
  \<open>asRoute\<close> is the filter and the map on one element; \<open>cleanRoutes\<close> is \<^verbatim>\<open>clean\<close>
  before the sort, the accepted bindings in declaration order.
\<close>

definition asRoute :: "jsval \<Rightarrow> route option" where
  "asRoute r =
     (if isObject r then
        (case getp r ''prefix'' of
           JString p \<Rightarrow>
             (case getp r ''worker'' of
                JString w \<Rightarrow> Some \<lparr> prefix = p, worker = w \<rparr>
              | _ \<Rightarrow> None)
         | _ \<Rightarrow> None)
      else None)"

definition cleanRoutes :: "jsval list \<Rightarrow> route list" where
  "cleanRoutes rs = List.map_filter asRoute rs"

definition longestFirst :: "route \<Rightarrow> route \<Rightarrow> int" where
  "longestFirst a b = int (length (prefix b)) - int (length (prefix a))"

definition normalizeRoutes :: "jsval \<Rightarrow> route list" where
  "normalizeRoutes rs =
     (case rs of
        JArray xs \<Rightarrow> arraySort longestFirst (cleanRoutes xs)
      | _ \<Rightarrow> [])"

text \<open>
  \<^verbatim>\<open>
  function matchRoute(path) {
    for (const route of state.routes) {
      if (path.startsWith(route.prefix)) {
        return route;
      }
    }
    return null;
  }
  \<close>
\<close>

definition matchRoute :: "string \<Rightarrow> router \<Rightarrow> route option" where
  "matchRoute path s = find (\<lambda>r. startsWith path (prefix r)) (routes s)"

section \<open>Sending\<close>

text \<open>
  \<^verbatim>\<open>
  function escapeHtml(raw) {
    return String(raw)
      .replace(/&/g, "&amp;")
      .replace(/</g, "&lt;")
      .replace(/>/g, "&gt;")
      .replace(/"/g, "&quot;")
      .replace(/'/g, "&#39;");
  }
  \<close>
  Every caller passes a string, on which \<^verbatim>\<open>String\<close> is the identity.
\<close>

definition escapeHtml :: "string \<Rightarrow> string" where
  "escapeHtml raw =
     replaceAll (CHR 0x27) ''&#39;''
       (replaceAll (CHR 0x22) ''&quot;''
          (replaceAll CHR ''>'' ''&gt;''
             (replaceAll CHR ''<'' ''&lt;''
                (replaceAll CHR ''&'' ''&amp;'' raw))))"

text \<open>\<^verbatim>\<open>function send(msg) { self.postMessage(msg); }\<close> and its three wrappers.\<close>

definition send :: "effect \<Rightarrow> router \<Rightarrow> router" where
  "send m s = s\<lparr> sent := sent s @ [m] \<rparr>"

definition sendProtocolError :: "string \<Rightarrow> string \<Rightarrow> jsval \<Rightarrow> router \<Rightarrow> router" where
  "sendProtocolError code message rid s = send (ErrorEnvelope rid code message) s"

definition sendHxResponse :: "string \<Rightarrow> rat \<Rightarrow> string \<Rightarrow> jsval \<Rightarrow> router \<Rightarrow> router" where
  "sendHxResponse rid status body headers s = send (HxResponse rid status body headers) s"

definition sendEvent :: "jsval \<Rightarrow> jsval \<Rightarrow> jsval \<Rightarrow> router \<Rightarrow> router" where
  "sendEvent rid ev dat s = send (EventEnvelope rid ev dat) s"

text \<open>\<^verbatim>\<open>{ "Content-Type": "text/html; charset=utf-8" }\<close>, the headers of every response
  the router writes itself.\<close>

definition htmlHeaders :: jsval where
  "htmlHeaders = JObject [(''Content-Type'', JString ''text/html; charset=utf-8'')]"

text \<open>The opening tags \<^verbatim>\<open><div class="fail">\<close> and \<^verbatim>\<open><div class="info">\<close>, and the
  apostrophe that quotes a name inside a body.\<close>

definition divFail :: string where
  "divFail = ''<div class='' @ [CHR 0x22] @ ''fail'' @ [CHR 0x22] @ ''>''"

definition divInfo :: string where
  "divInfo = ''<div class='' @ [CHR 0x22] @ ''info'' @ [CHR 0x22] @ ''>''"

definition apos :: string where
  "apos = [CHR 0x27]"

text \<open>
  Two conversions of the language are taken as parameters, since no property below
  depends on what they print: a number as a string (in a template literal and in
  \<^verbatim>\<open>String(v)\<close>) and \<^verbatim>\<open>s.toUpperCase()\<close>.
\<close>

record builtins =
  numberToString :: "jsnum \<Rightarrow> string"
  toUpperCase :: "string \<Rightarrow> string"

text \<open>\<^verbatim>\<open>String(v)\<close>; an array prints its elements joined by commas, with
  \<^verbatim>\<open>null\<close> and \<^verbatim>\<open>undefined\<close> elements empty.\<close>

fun joinComma :: "string list \<Rightarrow> string" where
  "joinComma [] = []"
| "joinComma [x] = x"
| "joinComma (x # y # ys) = x @ '','' @ joinComma (y # ys)"

fun toStringJs :: "builtins \<Rightarrow> jsval \<Rightarrow> string" where
  "toStringJs B JUndefined = ''undefined''"
| "toStringJs B JNull = ''null''"
| "toStringJs B (JBool b) = (if b then ''true'' else ''false'')"
| "toStringJs B (JNumber n) = numberToString B n"
| "toStringJs B (JString s) = s"
| "toStringJs B (JArray xs) =
     joinComma (map (\<lambda>x. if x = JNull \<or> x = JUndefined then [] else toStringJs B x) xs)"
| "toStringJs B (JObject kvs) = ''[object Object]''"

section \<open>Initialization\<close>

text \<open>\<^verbatim>\<open>typeof v === "string" ? v : d\<close> and \<^verbatim>\<open>isObject(v) ? v : {}\<close>\<close>

fun stringOr :: "jsval \<Rightarrow> string \<Rightarrow> string" where
  "stringOr (JString s) d = s"
| "stringOr v d = d"

definition objectOr :: "jsval \<Rightarrow> jsval" where
  "objectOr v = (if isObject v then v else JObject [])"

text \<open>
  \<^verbatim>\<open>
  function applyInit(msg) {
    if (Array.isArray(msg.routes)) {
      state.routes = normalizeRoutes(msg.routes);
    }

    if (isObject(msg.workers)) {
      for (const [name, def] of Object.entries(msg.workers)) {
        if (!isObject(def) || typeof def.url !== "string") continue;
        state.workerDefs.set(name, {
          url: def.url,
          mode: typeof def.mode === "string" ? def.mode : "protocol",
          type: typeof def.type === "string" ? def.type : "classic",
          config: isObject(def.config) ? def.config : {},
        });
      }
    }

    if (Number.isFinite(msg.requestTimeoutMs) && msg.requestTimeoutMs > 0) {
      state.requestTimeoutMs = Math.floor(msg.requestTimeoutMs);
    }
  }
  \<close>
  \<open>registerDef\<close> is the body of the loop.
\<close>

definition registerDef :: "string \<times> jsval \<Rightarrow> router \<Rightarrow> router" where
  "registerDef e s =
     (case e of (nm, d) \<Rightarrow>
        (if \<not> isObject d then s
         else (case getp d ''url'' of
                 JString u \<Rightarrow>
                   s\<lparr> workerDefs :=
                        AList.update nm
                          \<lparr> url = u,
                            def_mode = stringOr (getp d ''mode'') ''protocol'',
                            def_type = stringOr (getp d ''type'') ''classic'',
                            config = objectOr (getp d ''config'') \<rparr>
                          (workerDefs s) \<rparr>
               | _ \<Rightarrow> s)))"

definition applyInit :: "jsval \<Rightarrow> router \<Rightarrow> router" where
  "applyInit msg s =
     (let s1 = (if isArray (getp msg ''routes'')
                then s\<lparr> routes := normalizeRoutes (getp msg ''routes'') \<rparr>
                else s);
          s2 = (case getp msg ''workers'' of
                  JObject kvs \<Rightarrow> fold registerDef kvs s1
                | _ \<Rightarrow> s1)
      in (case getp msg ''requestTimeoutMs'' of
            JNumber (Finite q) \<Rightarrow>
              (if q > 0 then s2\<lparr> requestTimeoutMs := \<lfloor>q\<rfloor> \<rparr> else s2)
          | _ \<Rightarrow> s2))"

section \<open>Worker sessions\<close>

text \<open>An exception thrown inside the router: \<^verbatim>\<open>new Error(message)\<close>.\<close>

datatype jserror = Error string

text \<open>
  \<^verbatim>\<open>
  function ensureWorker(workerName) {
    if (state.workers.has(workerName)) {
      return state.workers.get(workerName);
    }

    const def = state.workerDefs.get(workerName);
    if (!def) {
      throw new Error(`No worker definition for '${workerName}'`);
    }

    const worker = new Worker(def.url, { type: def.type, name: `router:${workerName}` });
    const info = {
      name: workerName,
      mode: def.mode,
      ready: def.mode === "legacy-liboqs", // protocol workers need worker.ready
      startedAt: Date.now(),
      worker,
    };

    worker.onmessage = (event) => { handleWorkerMessage(info, event.data || {}); };
    worker.onerror = (event) => { ... };

    if (info.mode === "protocol") {
      worker.postMessage({ v: PROTOCOL_VERSION, kind: "worker.init", worker: workerName,
                           config: def.config, ts: nowIso() });
    }

    state.workers.set(workerName, info);
    return info;
  }
  \<close>
  The throw happens before anything is changed, so an error carries no state.  The two
  handlers installed here are \<open>workerOnMessage\<close> and \<open>workerOnError\<close> below.
\<close>

definition ensureWorker :: "string \<Rightarrow> router \<Rightarrow> jserror + workerInfo \<times> router" where
  "ensureWorker w s =
     (case map_of (workers s) w of
        Some info \<Rightarrow> Inr (info, s)
      | None \<Rightarrow>
          (case map_of (workerDefs s) w of
             None \<Rightarrow> Inl (Error (''No worker definition for '' @ apos @ w @ apos))
           | Some d \<Rightarrow>
               (let info = \<lparr> name = w, mode = def_mode d,
                             ready = (def_mode d = ''legacy-liboqs'') \<rparr>;
                    s1 = send (NewWorker w (url d) (def_type d)) s;
                    s2 = (if mode info = ''protocol''
                          then send (PostToWorker w
                                 (JObject [(''kind'', JString ''worker.init''),
                                           (''worker'', JString w),
                                           (''config'', config d)])) s1
                          else s1)
                in Inr (info, s2\<lparr> workers := AList.update w info (workers s2) \<rparr>))))"

section \<open>Pending requests\<close>

text \<open>
  \<^verbatim>\<open>
  function clearPending(requestId) {
    const pending = state.pending.get(requestId);
    if (!pending) return;
    clearTimeout(pending.timeoutId);
    state.pending.delete(requestId);
  }
  \<close>
\<close>

definition clearPending :: "string \<Rightarrow> router \<Rightarrow> router" where
  "clearPending requestId s =
     (case map_of (pending s) requestId of
        None \<Rightarrow> s
      | Some p \<Rightarrow>
          s\<lparr> timers := (timers s)(timeoutId p := None),
             pending := AList.delete requestId (pending s) \<rparr>)"

text \<open>
  \<^verbatim>\<open>
  function failPendingForWorker(workerName, reason) {
    for (const [requestId, pending] of state.pending.entries()) {
      if (pending.workerName !== workerName) continue;
      clearPending(requestId);
      sendHxResponse(requestId, 502,
        `<div class="fail">Backend worker failed: ${escapeHtml(reason)}</div>`,
        { "Content-Type": "text/html; charset=utf-8" });
    }
  }
  \<close>
  The loop deletes only the entry it stands on, so it visits every entry the table had
  when it started.
\<close>

definition failOne :: "string \<Rightarrow> string \<Rightarrow> string \<times> pendingEntry \<Rightarrow> router \<Rightarrow> router" where
  "failOne w reason e s =
     (case e of (requestId, p) \<Rightarrow>
        (if workerName p \<noteq> w then s
         else sendHxResponse requestId 502
                (divFail @ ''Backend worker failed: '' @ escapeHtml reason @ ''</div>'')
                htmlHeaders (clearPending requestId s)))"

definition failPendingForWorker :: "string \<Rightarrow> string \<Rightarrow> router \<Rightarrow> router" where
  "failPendingForWorker w reason s = fold (failOne w reason) (pending s) s"

section \<open>Messages from workers\<close>

text \<open>
  \<^verbatim>\<open>
  function handleProtocolWorkerMessage(info, msg) {
    if (!isObject(msg)) return;

    if (msg.kind === "worker.ready") {
      info.ready = true;
      sendEvent(null, "worker.ready", { worker: info.name });
      return;
    }

    if (msg.kind === "worker.event") {
      sendEvent(msg.id || null, msg.event || "worker.event", msg.data || {});
      return;
    }

    if (msg.kind === "worker.response") {
      const requestId = msg.id;
      if (!requestId || !state.pending.has(requestId)) {
        sendProtocolError("ORPHAN_RESPONSE", "Received worker.response for unknown request id", requestId || null);
        return;
      }

      clearPending(requestId);
      const response = isObject(msg.response) ? msg.response : {};
      sendHxResponse(
        requestId,
        Number.isFinite(response.status) ? response.status : 500,
        typeof response.body === "string" ? response.body : "",
        isObject(response.headers) ? response.headers : {}
      );
      return;
    }
  }
  \<close>
  \<^verbatim>\<open>info\<close> is the object stored in \<^verbatim>\<open>state.workers\<close>, so \<^verbatim>\<open>info.ready = true\<close>
  is a write to that table.  The keys of \<^verbatim>\<open>state.pending\<close> are strings, so
  \<^verbatim>\<open>state.pending.has(v)\<close> is false for every other value.
\<close>

fun pendingHas :: "router \<Rightarrow> jsval \<Rightarrow> bool" where
  "pendingHas s (JString r) = (map_of (pending s) r \<noteq> None)"
| "pendingHas s v = False"

text \<open>\<^verbatim>\<open>Number.isFinite(v) ? v : d\<close>\<close>

fun finiteOr :: "jsval \<Rightarrow> rat \<Rightarrow> rat" where
  "finiteOr (JNumber (Finite q)) d = q"
| "finiteOr v d = d"

definition handleProtocolWorkerMessage :: "workerInfo \<Rightarrow> jsval \<Rightarrow> router \<Rightarrow> router" where
  "handleProtocolWorkerMessage info msg s =
     (if \<not> isObject msg then s
      else if getp msg ''kind'' = JString ''worker.ready'' then
        sendEvent JNull (JString ''worker.ready'') (JObject [(''worker'', JString (name info))])
          (s\<lparr> workers := AList.update (name info) (info\<lparr> ready := True \<rparr>) (workers s) \<rparr>)
      else if getp msg ''kind'' = JString ''worker.event'' then
        sendEvent (orElse (getp msg ''id'') JNull)
          (orElse (getp msg ''event'') (JString ''worker.event''))
          (orElse (getp msg ''data'') (JObject [])) s
      else if getp msg ''kind'' = JString ''worker.response'' then
        (let requestId = getp msg ''id'' in
           if \<not> truthy requestId \<or> \<not> pendingHas s requestId then
             sendProtocolError ''ORPHAN_RESPONSE''
               ''Received worker.response for unknown request id'' (orElse requestId JNull) s
           else
             (let rid = stringOr requestId [];
                  s1 = clearPending rid s;
                  response = objectOr (getp msg ''response'')
              in sendHxResponse rid
                   (finiteOr (getp response ''status'') 500)
                   (stringOr (getp response ''body'') [])
                   (objectOr (getp response ''headers'')) s1))
      else s)"

text \<open>
  \<^verbatim>\<open>
  function handleLegacyLiboqsMessage(info, msg) {
    if (!isObject(msg)) return;

    // Existing worker emits {type: "log-batch", entries:[...]} and {type:"status", state, error}
    if (msg.type === "log-batch") {
      const requestId = state.activeLegacyByWorker.get(info.name) || null;
      sendEvent(requestId, "legacy.log_batch", { worker: info.name, entries: msg.entries || [] });
      return;
    }

    if (msg.type === "status") {
      const requestId = state.activeLegacyByWorker.get(info.name) || null;
      const payload = { worker: info.name, state: msg.state || "unknown" };
      if (msg.error) payload.error = msg.error;
      sendEvent(requestId, "legacy.status", payload);

      if (msg.state === "done" || msg.state === "error") {
        state.activeLegacyByWorker.delete(info.name);
      }
      return;
    }
  }
  \<close>
\<close>

definition activeLegacyId :: "router \<Rightarrow> string \<Rightarrow> jsval" where
  "activeLegacyId s w =
     (case map_of (activeLegacyByWorker s) w of
        Some r \<Rightarrow> orElse (JString r) JNull
      | None \<Rightarrow> JNull)"

definition handleLegacyLiboqsMessage :: "workerInfo \<Rightarrow> jsval \<Rightarrow> router \<Rightarrow> router" where
  "handleLegacyLiboqsMessage info msg s =
     (if \<not> isObject msg then s
      else if getp msg ''type'' = JString ''log-batch'' then
        sendEvent (activeLegacyId s (name info)) (JString ''legacy.log_batch'')
          (JObject [(''worker'', JString (name info)),
                    (''entries'', orElse (getp msg ''entries'') (JArray []))]) s
      else if getp msg ''type'' = JString ''status'' then
        (let payload = [(''worker'', JString (name info)),
                        (''state'', orElse (getp msg ''state'') (JString ''unknown''))];
             payload' = (if truthy (getp msg ''error'')
                         then payload @ [(''error'', getp msg ''error'')] else payload);
             s1 = sendEvent (activeLegacyId s (name info)) (JString ''legacy.status'')
                    (JObject payload') s
         in if getp msg ''state'' = JString ''done'' \<or> getp msg ''state'' = JString ''error''
            then s1\<lparr> activeLegacyByWorker := AList.delete (name info) (activeLegacyByWorker s1) \<rparr>
            else s1)
      else s)"

text \<open>
  \<^verbatim>\<open>
  function handleWorkerMessage(info, msg) {
    if (info.mode === "legacy-liboqs") {
      handleLegacyLiboqsMessage(info, msg);
      return;
    }
    handleProtocolWorkerMessage(info, msg);
  }
  \<close>
\<close>

definition handleWorkerMessage :: "workerInfo \<Rightarrow> jsval \<Rightarrow> router \<Rightarrow> router" where
  "handleWorkerMessage info msg s =
     (if mode info = ''legacy-liboqs'' then handleLegacyLiboqsMessage info msg s
      else handleProtocolWorkerMessage info msg s)"

section \<open>Dispatch\<close>

text \<open>
  \<^verbatim>\<open>
  function dispatchProtocolRequest(requestId, route, reqMsg) {
    const info = ensureWorker(route.worker);
    if (!info.ready) {
      sendHxResponse(requestId, 503,
        `<div class="info">Worker '${escapeHtml(route.worker)}' is still warming up.</div>`,
        { "Content-Type": "text/html; charset=utf-8" });
      return;
    }

    const timeoutId = setTimeout(() => {
      clearPending(requestId);
      sendHxResponse(requestId, 504,
        `<div class="fail">Request timed out in router after ${state.requestTimeoutMs}ms.</div>`,
        { "Content-Type": "text/html; charset=utf-8" });
    }, state.requestTimeoutMs);

    state.pending.set(requestId, { workerName: route.worker, timeoutId });

    info.worker.postMessage({
      v: PROTOCOL_VERSION, kind: "worker.request", id: requestId,
      request: {
        method: reqMsg.method,
        path: reqMsg.path,
        headers: isObject(reqMsg.headers) ? reqMsg.headers : {},
        query: isObject(reqMsg.query) ? reqMsg.query : {},
        form: isObject(reqMsg.form) ? reqMsg.form : {},
        body: typeof reqMsg.body === "string" ? reqMsg.body : "",
      },
      ts: nowIso(),
    });
  }
  \<close>
  \<open>setTimeout\<close> arms a timer under a fresh handle; \<open>timerCallback\<close> is the arrow
  function, run by \<open>timerFired\<close> when the host fires a timer that is still armed;
  \<open>workerRequest\<close> is the envelope posted to the worker.
\<close>

definition setTimeout :: "string \<Rightarrow> int \<Rightarrow> router \<Rightarrow> nat \<times> router" where
  "setTimeout requestId delay s =
     (nextTimeoutId s,
      s\<lparr> timers := (timers s)(nextTimeoutId s \<mapsto> (requestId, delay)),
         nextTimeoutId := Suc (nextTimeoutId s) \<rparr>)"

definition timerCallback :: "builtins \<Rightarrow> string \<Rightarrow> router \<Rightarrow> router" where
  "timerCallback B requestId s =
     (let s1 = clearPending requestId s
      in sendHxResponse requestId 504
           (divFail @ ''Request timed out in router after ''
              @ numberToString B (Finite (of_int (requestTimeoutMs s1))) @ ''ms.</div>'')
           htmlHeaders s1)"

definition timerFired :: "builtins \<Rightarrow> nat \<Rightarrow> router \<Rightarrow> router" where
  "timerFired B tid s =
     (case timers s tid of
        None \<Rightarrow> s
      | Some (requestId, delay) \<Rightarrow> timerCallback B requestId (s\<lparr> timers := (timers s)(tid := None) \<rparr>))"

definition workerRequest :: "string \<Rightarrow> jsval \<Rightarrow> jsval" where
  "workerRequest requestId reqMsg =
     JObject [(''kind'', JString ''worker.request''),
              (''id'', JString requestId),
              (''request'',
               JObject [(''method'', getp reqMsg ''method''),
                        (''path'', getp reqMsg ''path''),
                        (''headers'', objectOr (getp reqMsg ''headers'')),
                        (''query'', objectOr (getp reqMsg ''query'')),
                        (''form'', objectOr (getp reqMsg ''form'')),
                        (''body'', JString (stringOr (getp reqMsg ''body'') []))])]"

definition dispatchProtocolRequest :: "string \<Rightarrow> route \<Rightarrow> jsval \<Rightarrow> router \<Rightarrow> jserror + router" where
  "dispatchProtocolRequest requestId rt reqMsg s =
     (case ensureWorker (worker rt) s of
        Inl e \<Rightarrow> Inl e
      | Inr (info, s1) \<Rightarrow>
          (if \<not> ready info then
             Inr (sendHxResponse requestId 503
                    (divInfo @ ''Worker '' @ apos @ escapeHtml (worker rt) @ apos
                       @ '' is still warming up.</div>'')
                    htmlHeaders s1)
           else
             (case setTimeout requestId (requestTimeoutMs s1) s1 of
                (tid, s2) \<Rightarrow>
                  (let s3 = s2\<lparr> pending :=
                                  AList.update requestId
                                    \<lparr> workerName = worker rt, timeoutId = tid \<rparr> (pending s2) \<rparr>
                   in Inr (send (PostToWorker (name info) (workerRequest requestId reqMsg))
                             s3)))))"

text \<open>
  \<^verbatim>\<open>
  function dispatchLegacyLiboqsRequest(requestId, route, reqMsg) {
    const info = ensureWorker(route.worker);
    const current = state.activeLegacyByWorker.get(route.worker);

    if (current) {
      sendHxResponse(requestId, 409,
        `<div class="info">liboqs worker is busy with request '${escapeHtml(current)}'.</div>`,
        { "Content-Type": "text/html; charset=utf-8" });
      return;
    }

    // Adapter supports explicit run endpoint only.
    if (reqMsg.path !== "/hx/tests/liboqs/run") {
      sendHxResponse(requestId, 404,
        `<div class="fail">Legacy liboqs adapter only supports /hx/tests/liboqs/run.</div>`,
        { "Content-Type": "text/html; charset=utf-8" });
      return;
    }

    state.activeLegacyByWorker.set(route.worker, requestId);
    info.worker.postMessage({ type: "run" });

    sendHxResponse(requestId, 202,
      `<div class="info">liboqs run started in warm worker '${escapeHtml(route.worker)}'.</div>`,
      { "Content-Type": "text/html; charset=utf-8" });
  }
  \<close>
  \<^verbatim>\<open>if (current)\<close> holds for a bound id that is not the empty string.
\<close>

definition busyBody :: "string \<Rightarrow> string" where
  "busyBody current =
     divInfo @ ''liboqs worker is busy with request '' @ apos @ escapeHtml current @ apos
       @ ''.</div>''"

definition dispatchLegacyLiboqsRequest :: "string \<Rightarrow> route \<Rightarrow> jsval \<Rightarrow> router \<Rightarrow> jserror + router" where
  "dispatchLegacyLiboqsRequest requestId rt reqMsg s =
     (case ensureWorker (worker rt) s of
        Inl e \<Rightarrow> Inl e
      | Inr (info, s1) \<Rightarrow>
          (let current = map_of (activeLegacyByWorker s1) (worker rt) in
             if current \<noteq> None \<and> current \<noteq> Some [] then
               Inr (sendHxResponse requestId 409 (busyBody (the current)) htmlHeaders s1)
             else if getp reqMsg ''path'' \<noteq> JString ''/hx/tests/liboqs/run'' then
               Inr (sendHxResponse requestId 404
                      (divFail @ ''Legacy liboqs adapter only supports /hx/tests/liboqs/run.</div>'')
                      htmlHeaders s1)
             else
               (let s2 = s1\<lparr> activeLegacyByWorker :=
                               AList.update (worker rt) requestId (activeLegacyByWorker s1) \<rparr>;
                    s3 = send (PostToWorker (name info) (JObject [(''type'', JString ''run'')])) s2
                in Inr (sendHxResponse requestId 202
                          (divInfo @ ''liboqs run started in warm worker '' @ apos
                             @ escapeHtml (worker rt) @ apos @ ''.</div>'')
                          htmlHeaders s3))))"

text \<open>
  \<^verbatim>\<open>
  function handleHxRequest(msg) {
    const requestId = typeof msg.id === "string" && msg.id.length > 0 ? msg.id : null;
    if (!requestId) {
      sendProtocolError("INVALID_REQUEST", "hx.request requires non-empty string id", null);
      return;
    }

    if (typeof msg.path !== "string" || msg.path.length === 0) {
      sendHxResponse(requestId, 400, `<div class="fail">Missing request path.</div>`,
        { "Content-Type": "text/html; charset=utf-8" });
      return;
    }

    const route = matchRoute(msg.path);
    if (!route) {
      sendHxResponse(requestId, 404,
        `<div class="fail">No worker route for path '${escapeHtml(msg.path)}'.</div>`,
        { "Content-Type": "text/html; charset=utf-8" });
      return;
    }

    const def = state.workerDefs.get(route.worker);
    if (!def) {
      sendHxResponse(requestId, 500,
        `<div class="fail">Route targets undefined worker '${escapeHtml(route.worker)}'.</div>`,
        { "Content-Type": "text/html; charset=utf-8" });
      return;
    }

    msg.method = typeof msg.method === "string" ? msg.method.toUpperCase() : "GET";

    try {
      if (def.mode === "legacy-liboqs") {
        dispatchLegacyLiboqsRequest(requestId, route, msg);
      } else {
        dispatchProtocolRequest(requestId, route, msg);
      }
    } catch (err) {
      sendHxResponse(requestId, 500,
        `<div class="fail">Router dispatch error: ${escapeHtml(err?.message || String(err))}</div>`,
        { "Content-Type": "text/html; charset=utf-8" });
    }
  }
  \<close>
\<close>

text \<open>\<^verbatim>\<open>typeof v === "string" && v.length > 0 ? v : null\<close>, with \<open>None\<close> for
  \<^verbatim>\<open>null\<close>.\<close>

fun nonEmptyString :: "jsval \<Rightarrow> string option" where
  "nonEmptyString (JString s) = (if length s > 0 then Some s else None)"
| "nonEmptyString v = None"

text \<open>\<^verbatim>\<open>err?.message || String(err)\<close>; an \<^verbatim>\<open>Error\<close> with an empty message
  prints as its name.\<close>

fun errorText :: "jserror \<Rightarrow> string" where
  "errorText (Error m) = (if m \<noteq> [] then m else ''Error'')"

definition notFoundBody :: "string \<Rightarrow> string" where
  "notFoundBody path =
     divFail @ ''No worker route for path '' @ apos @ escapeHtml path @ apos @ ''.</div>''"

definition handleHxRequest :: "builtins \<Rightarrow> jsval \<Rightarrow> router \<Rightarrow> router" where
  "handleHxRequest B msg s =
     (case nonEmptyString (getp msg ''id'') of
        None \<Rightarrow>
          sendProtocolError ''INVALID_REQUEST'' ''hx.request requires non-empty string id'' JNull s
      | Some requestId \<Rightarrow>
          (case nonEmptyString (getp msg ''path'') of
             None \<Rightarrow>
               sendHxResponse requestId 400 (divFail @ ''Missing request path.</div>'')
                 htmlHeaders s
           | Some path \<Rightarrow>
               (case matchRoute path s of
                  None \<Rightarrow> sendHxResponse requestId 404 (notFoundBody path) htmlHeaders s
                | Some rt \<Rightarrow>
                    (case map_of (workerDefs s) (worker rt) of
                       None \<Rightarrow>
                         sendHxResponse requestId 500
                           (divFail @ ''Route targets undefined worker '' @ apos
                              @ escapeHtml (worker rt) @ apos @ ''.</div>'')
                           htmlHeaders s
                     | Some d \<Rightarrow>
                         (let msg' = setp msg ''method''
                                       (JString (case getp msg ''method'' of
                                                   JString m \<Rightarrow> toUpperCase B m
                                                 | _ \<Rightarrow> ''GET''))
                          in case (if def_mode d = ''legacy-liboqs''
                                   then dispatchLegacyLiboqsRequest requestId rt msg' s
                                   else dispatchProtocolRequest requestId rt msg' s) of
                               Inr s' \<Rightarrow> s'
                             | Inl err \<Rightarrow>
                                 sendHxResponse requestId 500
                                   (divFail @ ''Router dispatch error: ''
                                      @ escapeHtml (errorText err) @ ''</div>'')
                                   htmlHeaders s)))))"

section \<open>The router's handlers\<close>

text \<open>
  \<^verbatim>\<open>
  self.onmessage = (event) => {
    const msg = event.data || {};
    if (!isObject(msg)) return;

    if (msg.kind === "control.init") {
      applyInit(msg);
      send({ v: PROTOCOL_VERSION, kind: "control.ready", id: msg.id || null,
             routes: state.routes, workerCount: state.workerDefs.size,
             requestTimeoutMs: state.requestTimeoutMs, ts: nowIso() });
      return;
    }

    if (msg.kind === "control.ping") {
      send({ v: PROTOCOL_VERSION, kind: "control.pong", id: msg.id || null, ts: nowIso() });
      return;
    }

    if (msg.kind === "hx.request") {
      handleHxRequest(msg);
      return;
    }

    sendProtocolError("UNKNOWN_KIND", `Unsupported router message kind '${String(msg.kind)}'`, msg.id || null);
  };
  \<close>
\<close>

definition onmessage :: "builtins \<Rightarrow> jsval \<Rightarrow> router \<Rightarrow> router" where
  "onmessage B dat s =
     (let msg = orElse dat (JObject []) in
        if \<not> isObject msg then s
        else if getp msg ''kind'' = JString ''control.init'' then
          (let s1 = applyInit msg s
           in send (ControlReady (orElse (getp msg ''id'') JNull) (routes s1)
                      (length (workerDefs s1)) (requestTimeoutMs s1)) s1)
        else if getp msg ''kind'' = JString ''control.ping'' then
          send (ControlPong (orElse (getp msg ''id'') JNull)) s
        else if getp msg ''kind'' = JString ''hx.request'' then
          handleHxRequest B msg s
        else
          sendProtocolError ''UNKNOWN_KIND''
            (''Unsupported router message kind '' @ apos
               @ toStringJs B (getp msg ''kind'') @ apos)
            (orElse (getp msg ''id'') JNull) s)"

text \<open>
  The handlers \<^verbatim>\<open>ensureWorker\<close> installs on the worker of session \<open>w\<close>:
  \<^verbatim>\<open>
  worker.onmessage = (event) => {
    handleWorkerMessage(info, event.data || {});
  };

  worker.onerror = (event) => {
    const message = String(event?.message || "worker error");
    failPendingForWorker(workerName, `Worker '${workerName}' error: ${message}`);
    sendProtocolError("WORKER_ERROR", message);
  };
  \<close>
  Only a worker that \<^verbatim>\<open>ensureWorker\<close> has created can call them, so a name without a
  session does nothing.  The message of an error event is a string.
\<close>

definition workerOnMessage :: "string \<Rightarrow> jsval \<Rightarrow> router \<Rightarrow> router" where
  "workerOnMessage w dat s =
     (case map_of (workers s) w of
        None \<Rightarrow> s
      | Some info \<Rightarrow> handleWorkerMessage info (orElse dat (JObject [])) s)"

definition workerOnError :: "string \<Rightarrow> string \<Rightarrow> router \<Rightarrow> router" where
  "workerOnError w m s =
     (case map_of (workers s) w of
        None \<Rightarrow> s
      | Some info \<Rightarrow>
          (let message = (if m \<noteq> [] then m else ''worker error'');
               s1 = failPendingForWorker w
                      (''Worker '' @ apos @ w @ apos @ '' error: '' @ message) s
           in sendProtocolError ''WORKER_ERROR'' message JNull s1))"

text \<open>
  Everything runs on one thread, one handler at a time: the router's life is a sequence
  of events, each handled to completion.
\<close>

datatype event =
    RouterMessage jsval
  | WorkerMessage string jsval
  | WorkerError string string
  | TimerFired nat

fun step :: "builtins \<Rightarrow> event \<Rightarrow> router \<Rightarrow> router" where
  "step B (RouterMessage dat) s = onmessage B dat s"
| "step B (WorkerMessage w dat) s = workerOnMessage w dat s"
| "step B (WorkerError w m) s = workerOnError w m s"
| "step B (TimerFired tid) s = timerFired B tid s"

text \<open>The state after a sequence of events, from the initial state or any other.\<close>

definition run :: "builtins \<Rightarrow> event list \<Rightarrow> router \<Rightarrow> router" where
  "run B evs s = fold (step B) evs s"

section \<open>Conversions for the examples\<close>

text \<open>
  The two conversions as far as the examples below use them: an integer prints in
  decimal (as the language prints every integer below \<open>10\<^sup>2\<^sup>1\<close>), and
  \<^verbatim>\<open>toUpperCase\<close> raises the letters a to z.
\<close>

definition digitChar :: "nat \<Rightarrow> char" where
  "digitChar d = ''0123456789'' ! d"

fun decimal :: "nat \<Rightarrow> string" where
  "decimal n =
     (if n < 10 then [digitChar n]
      else decimal (n div 10) @ [digitChar (n mod 10)])"

definition printInteger :: "jsnum \<Rightarrow> string" where
  "printInteger n =
     (case n of
        Finite q \<Rightarrow> (if q < 0 then ''-'' @ decimal (nat (- \<lfloor>q\<rfloor>)) else decimal (nat \<lfloor>q\<rfloor>))
      | NaN \<Rightarrow> ''NaN''
      | Infinity \<Rightarrow> ''Infinity''
      | NegInfinity \<Rightarrow> ''-Infinity'')"

definition upperAscii :: "char \<Rightarrow> char" where
  "upperAscii c =
     (if (97::nat) \<le> of_char c \<and> of_char c \<le> (122::nat)
      then char_of (of_char c - (32::nat)) else c)"

definition exampleBuiltins :: builtins where
  "exampleBuiltins = \<lparr> numberToString = printInteger, toUpperCase = map upperAscii \<rparr>"

section \<open>Vocabulary: route matching\<close>

text \<open>
  In the words of the specification: a binding is a longest match for a path, among the
  bindings \<open>xs\<close>, when its prefix is a literal prefix of the path and no binding of \<open>xs\<close>
  whose prefix is a literal prefix of the path has a longer one.
\<close>

definition longestMatch :: "string \<Rightarrow> route list \<Rightarrow> route \<Rightarrow> bool" where
  "longestMatch path xs r =
     (startsWith path (prefix r) \<and>
      (\<forall>r' \<in> set xs. startsWith path (prefix r') \<longrightarrow> length (prefix r') \<le> length (prefix r)))"

text \<open>The sorted list runs from long prefixes to short ones.\<close>

definition descending :: "route list \<Rightarrow> bool" where
  "descending xs = sorted_wrt (\<lambda>a b. length (prefix b) \<le> length (prefix a)) xs"

text \<open>
  Three bindings and one malformed entry; two bindings share the longest matching
  prefix, and the one declared first is returned.
\<close>

definition exampleRoutes :: "jsval list" where
  "exampleRoutes =
     [JObject [(''prefix'', JString ''/hx''), (''worker'', JString ''a'')],
      JObject [(''prefix'', JString ''/hx/tests''), (''worker'', JString ''b'')],
      JObject [(''prefix'', JNumber (Finite 7)), (''worker'', JString ''c'')],
      JObject [(''prefix'', JString ''/hx/tests''), (''worker'', JString ''d'')],
      JObject [(''prefix'', JString ''/hx/tests/kem''), (''worker'', JString ''e'')]]"

section \<open>Vocabulary: request validation\<close>

text \<open>Whether a posted message is an \<^verbatim>\<open>hx.response\<close>, and those among a list.\<close>

fun isHxResponse :: "effect \<Rightarrow> bool" where
  "isHxResponse (HxResponse rid status body headers) = True"
| "isHxResponse m = False"

definition hxResponses :: "effect list \<Rightarrow> effect list" where
  "hxResponses ms = filter isHxResponse ms"

text \<open>
  In the words of the specification: the text with the characters \<^verbatim>\<open>&\<close>, \<^verbatim>\<open><\<close>,
  \<^verbatim>\<open>>\<close>, \<^verbatim>\<open>"\<close> and \<^verbatim>\<open>'\<close> HTML-escaped, each on its own.
\<close>

definition escapeChar :: "char \<Rightarrow> string" where
  "escapeChar c =
     (if c = CHR ''&'' then ''&amp;''
      else if c = CHR ''<'' then ''&lt;''
      else if c = CHR ''>'' then ''&gt;''
      else if c = CHR 0x22 then ''&quot;''
      else if c = CHR 0x27 then ''&#39;''
      else [c])"

definition htmlEscaped :: "string \<Rightarrow> string" where
  "htmlEscaped s = concat (map escapeChar s)"

text \<open>A path with all five characters, on a router with one route that does not match.\<close>

definition oneRouteState :: router where
  "oneRouteState = initialState\<lparr> routes := [\<lparr> prefix = ''/hx/tests'', worker = ''liboqs'' \<rparr>] \<rparr>"

definition oddPathRequest :: jsval where
  "oddPathRequest =
     JObject [(''kind'', JString ''hx.request''), (''id'', JString ''r1''),
              (''path'', JString (''/a&b<c>'' @ [CHR 0x22, CHR 0x27]))]"

section \<open>Vocabulary: dispatch\<close>

text \<open>
  A router with a route to a native-mode worker that has a definition and no session
  yet, and a request still pending for another worker: the first request to the worker
  creates its session, which is not ready.
\<close>

definition coldState :: router where
  "coldState = initialState
     \<lparr> routes := [\<lparr> prefix = ''/hx/kem'', worker = ''kem'' \<rparr>],
       workerDefs := [(''kem'', \<lparr> url = ''/workers/kem.js'', def_mode = ''protocol'',
                                 def_type = ''classic'', config = JObject [] \<rparr>)],
       pending := [(''r0'', \<lparr> workerName = ''sig'', timeoutId = 1 \<rparr>)],
       timers := [1 \<mapsto> (''r0'', 30000)],
       nextTimeoutId := 2 \<rparr>"

definition coldStateWithSession :: router where
  "coldStateWithSession = coldState
     \<lparr> sent := [NewWorker ''kem'' ''/workers/kem.js'' ''classic'',
                PostToWorker ''kem'' (JObject [(''kind'', JString ''worker.init''),
                                               (''worker'', JString ''kem''),
                                               (''config'', JObject [])])],
       workers := [(''kem'', \<lparr> name = ''kem'', mode = ''protocol'', ready = False \<rparr>)] \<rparr>"

definition kemRequest :: jsval where
  "kemRequest =
     JObject [(''kind'', JString ''hx.request''), (''id'', JString ''r1''),
              (''path'', JString ''/hx/kem/keygen''), (''method'', JString ''POST'')]"

section \<open>Vocabulary: reachable states\<close>

text \<open>
  What holds of the tables in every state the router can reach (shown below): a
  session is stored under its own name; request ids bound to a legacy slot or pending
  are not empty; timer handles in use are below the next handle; and no two pending
  entries share a timer handle.
\<close>

definition sessionsNamed :: "router \<Rightarrow> bool" where
  "sessionsNamed s = (\<forall>w i. map_of (workers s) w = Some i \<longrightarrow> name i = w)"

definition slotsNonEmpty :: "router \<Rightarrow> bool" where
  "slotsNonEmpty s = (\<forall>w r. map_of (activeLegacyByWorker s) w = Some r \<longrightarrow> r \<noteq> [])"

definition pendingNonEmpty :: "router \<Rightarrow> bool" where
  "pendingNonEmpty s = (\<forall>r p. map_of (pending s) r = Some p \<longrightarrow> r \<noteq> [])"

definition timersBelow :: "router \<Rightarrow> bool" where
  "timersBelow s =
     ((\<forall>r p. map_of (pending s) r = Some p \<longrightarrow> timeoutId p < nextTimeoutId s) \<and>
      (\<forall>t. timers s t \<noteq> None \<longrightarrow> t < nextTimeoutId s))"

definition timersDistinct :: "router \<Rightarrow> bool" where
  "timersDistinct s =
     (\<forall>r r' p p'. map_of (pending s) r = Some p \<and> map_of (pending s) r' = Some p'
         \<and> timeoutId p = timeoutId p' \<longrightarrow> r = r')"

definition wellFormed :: "router \<Rightarrow> bool" where
  "wellFormed s =
     (sessionsNamed s \<and> slotsNonEmpty s \<and> pendingNonEmpty s \<and> timersBelow s \<and> timersDistinct s)"

section \<open>Vocabulary: the legacy adapter\<close>

text \<open>The one path the legacy adapter serves.\<close>

definition runPath :: string where
  "runPath = ''/hx/tests/liboqs/run''"

text \<open>The legacy slot of a worker is free: no id is bound, or (never, in a reachable
  state) the empty string, which \<^verbatim>\<open>if (current)\<close> takes for none.\<close>

definition slotFree :: "router \<Rightarrow> string \<Rightarrow> bool" where
  "slotFree s w =
     (map_of (activeLegacyByWorker s) w = None \<or> map_of (activeLegacyByWorker s) w = Some [])"

text \<open>
  The router of the specification's end-to-end scenario, after a first request
  \<^verbatim>\<open>r1\<close> for the run path has been accepted: the worker's slot is bound to it.
\<close>

definition liboqsRoute :: route where
  "liboqsRoute = \<lparr> prefix = ''/hx/tests/liboqs'', worker = ''liboqs'' \<rparr>"

definition liboqsSession :: workerInfo where
  "liboqsSession = \<lparr> name = ''liboqs'', mode = ''legacy-liboqs'', ready = True \<rparr>"

definition busyState :: router where
  "busyState = initialState
     \<lparr> routes := [liboqsRoute],
       workerDefs := [(''liboqs'', \<lparr> url = ''/workers/liboqs_worker.js'',
                                    def_mode = ''legacy-liboqs'', def_type = ''classic'',
                                    config = JObject [] \<rparr>)],
       workers := [(''liboqs'', liboqsSession)],
       activeLegacyByWorker := [(''liboqs'', ''r1'')] \<rparr>"

definition statusRequest :: jsval where
  "statusRequest =
     JObject [(''kind'', JString ''hx.request''), (''id'', JString ''r2''),
              (''path'', JString ''/hx/tests/liboqs/status'')]"

section \<open>Vocabulary: initialization\<close>

text \<open>
  A worker definition of a \<^verbatim>\<open>control.init\<close> message as \<^verbatim>\<open>applyInit\<close> stores it, if
  it is well formed (an object with a string \<^verbatim>\<open>url\<close>), and the well-formed definitions
  of a message's \<^verbatim>\<open>workers\<close> field, in the order of the message.
\<close>

definition asWorkerDef :: "jsval \<Rightarrow> workerDef option" where
  "asWorkerDef d =
     (if isObject d then
        (case getp d ''url'' of
           JString u \<Rightarrow>
             Some \<lparr> url = u,
                    def_mode = (case getp d ''mode'' of JString m \<Rightarrow> m | _ \<Rightarrow> ''protocol''),
                    def_type = (case getp d ''type'' of JString t \<Rightarrow> t | _ \<Rightarrow> ''classic''),
                    config = (case getp d ''config'' of JObject c \<Rightarrow> JObject c | _ \<Rightarrow> JObject []) \<rparr>
         | _ \<Rightarrow> None)
      else None)"

fun acceptedDefs :: "jsval \<Rightarrow> (string \<times> workerDef) list" where
  "acceptedDefs (JObject kvs) =
     List.map_filter (\<lambda>e. map_option (Pair (fst e)) (asWorkerDef (snd e))) kvs"
| "acceptedDefs v = []"

text \<open>
  Two initializations: the first declares the workers \<^verbatim>\<open>kem\<close> and \<^verbatim>\<open>sig\<close> and a route
  to each; the second declares \<^verbatim>\<open>kem\<close> only, at another url, and its route only.
\<close>

definition firstInit :: jsval where
  "firstInit =
     JObject [(''kind'', JString ''control.init''),
              (''routes'', JArray [JObject [(''prefix'', JString ''/hx/kem''), (''worker'', JString ''kem'')],
                                   JObject [(''prefix'', JString ''/hx/sig''), (''worker'', JString ''sig'')]]),
              (''workers'', JObject [(''kem'', JObject [(''url'', JString ''/workers/kem.js'')]),
                                     (''sig'', JObject [(''url'', JString ''/workers/sig.js'')])])]"

definition secondInit :: jsval where
  "secondInit =
     JObject [(''kind'', JString ''control.init''),
              (''routes'', JArray [JObject [(''prefix'', JString ''/hx/kem''), (''worker'', JString ''kem'')]]),
              (''workers'', JObject [(''kem'', JObject [(''url'', JString ''/workers/kem2.js'')])])]"

definition kemDef :: "string \<Rightarrow> workerDef" where
  "kemDef u = \<lparr> url = u, def_mode = ''protocol'', def_type = ''classic'', config = JObject [] \<rparr>"

definition afterFirstInit :: router where
  "afterFirstInit = initialState
     \<lparr> routes := [\<lparr> prefix = ''/hx/kem'', worker = ''kem'' \<rparr>, \<lparr> prefix = ''/hx/sig'', worker = ''sig'' \<rparr>],
       workerDefs := [(''kem'', kemDef ''/workers/kem.js''), (''sig'', kemDef ''/workers/sig.js'')] \<rparr>"

section \<open>Vocabulary: pending requests\<close>

text \<open>
  A router with one native-mode worker \<^verbatim>\<open>kem\<close>: initialized, the worker spawned by a
  first request \<^verbatim>\<open>r0\<close> (answered 503), the worker then ready, and a second
  request \<^verbatim>\<open>r1\<close> dispatched and pending under timer 1.
\<close>

definition kemRoute :: route where
  "kemRoute = \<lparr> prefix = ''/hx/kem'', worker = ''kem'' \<rparr>"

definition kemSession :: workerInfo where
  "kemSession = \<lparr> name = ''kem'', mode = ''protocol'', ready = True \<rparr>"

definition kemInit :: jsval where
  "kemInit =
     JObject [(''kind'', JString ''control.init''),
              (''routes'', JArray [JObject [(''prefix'', JString ''/hx/kem''),
                                            (''worker'', JString ''kem'')]]),
              (''workers'', JObject [(''kem'', JObject [(''url'', JString ''/workers/kem.js'')])])]"

definition warmupRequest :: jsval where
  "warmupRequest =
     JObject [(''kind'', JString ''hx.request''), (''id'', JString ''r0''),
              (''path'', JString ''/hx/kem/ping'')]"

definition workerReady :: jsval where
  "workerReady = JObject [(''kind'', JString ''worker.ready'')]"

definition kemWorkerRequest :: jsval where
  "kemWorkerRequest =
     JObject [(''kind'', JString ''worker.request''), (''id'', JString ''r1''),
              (''request'',
               JObject [(''method'', JString ''POST''), (''path'', JString ''/hx/kem/keygen''),
                        (''headers'', JObject []), (''query'', JObject []),
                        (''form'', JObject []), (''body'', JString [])])]"

definition pendingHistory :: "effect list" where
  "pendingHistory =
     [ControlReady JNull [kemRoute] 1 30000,
      NewWorker ''kem'' ''/workers/kem.js'' ''classic'',
      PostToWorker ''kem'' (JObject [(''kind'', JString ''worker.init''),
                                     (''worker'', JString ''kem''),
                                     (''config'', JObject [])]),
      HxResponse ''r0'' 503
        (divInfo @ ''Worker '' @ apos @ ''kem'' @ apos @ '' is still warming up.</div>'')
        htmlHeaders,
      EventEnvelope JNull (JString ''worker.ready'') (JObject [(''worker'', JString ''kem'')]),
      PostToWorker ''kem'' kemWorkerRequest]"

definition pendingState :: router where
  "pendingState =
     \<lparr> requestTimeoutMs = 30000,
       routes = [kemRoute],
       workerDefs = [(''kem'', kemDef ''/workers/kem.js'')],
       workers = [(''kem'', kemSession)],
       pending = [(''r1'', \<lparr> workerName = ''kem'', timeoutId = 1 \<rparr>)],
       activeLegacyByWorker = [],
       timers = [1 \<mapsto> (''r1'', 30000)],
       nextTimeoutId = 2,
       sent = pendingHistory \<rparr>"

text \<open>The worker's answers: a well-typed one, one whose body is an object, and a bare one.\<close>

definition goodResponse :: jsval where
  "goodResponse =
     JObject [(''kind'', JString ''worker.response''), (''id'', JString ''r1''),
              (''response'',
               JObject [(''status'', JNumber (Finite 201)), (''body'', JString ''<p>ok</p>''),
                        (''headers'', JObject [(''X-Kem'', JString ''1'')])])]"

definition objectBodyResponse :: jsval where
  "objectBodyResponse =
     JObject [(''kind'', JString ''worker.response''), (''id'', JString ''r1''),
              (''response'',
               JObject [(''status'', JNumber (Finite 200)),
                        (''body'', JObject [(''ok'', JBool True)])])]"


section \<open>Vocabulary: stray timers\<close>

text \<open>
  A timer that is armed with \<open>v\<close> (the request id of its callback and its delay) and
  that no pending entry refers to: \<^verbatim>\<open>clearPending\<close>, the only caller of
  \<^verbatim>\<open>clearTimeout\<close>, cannot reach it.
\<close>

definition strayTimer :: "nat \<Rightarrow> string \<times> int \<Rightarrow> router \<Rightarrow> bool" where
  "strayTimer tid v s =
     (timers s tid = Some v \<and> tid < nextTimeoutId s \<and>
      (\<forall>r p. map_of (pending s) r = Some p \<longrightarrow> timeoutId p \<noteq> tid))"

text \<open>The router of \<open>pendingState\<close> after a second request with the id \<^verbatim>\<open>r1\<close>.\<close>

definition duplicateState :: router where
  "duplicateState = pendingState
     \<lparr> timers := [1 \<mapsto> (''r1'', 30000), 2 \<mapsto> (''r1'', 30000)],
       nextTimeoutId := 3,
       pending := [(''r1'', \<lparr> workerName = ''kem'', timeoutId = 2 \<rparr>)],
       sent := pendingHistory @ [PostToWorker ''kem'' kemWorkerRequest] \<rparr>"

section \<open>Vocabulary: the legacy slot\<close>




section \<open>Properties: route matching\<close>

lemma set_insertBy: "set (insertBy cmp x ys) = insert x (set ys)"
  by (induction ys) auto

lemma set_arraySort: "set (arraySort cmp xs) = set xs"
  by (induction xs) (auto simp: set_insertBy)

lemma descending_insertBy:
  "descending ys \<Longrightarrow> descending (insertBy longestFirst x ys)"
  unfolding descending_def
  by (induction ys) (auto simp: set_insertBy longestFirst_def)

lemma descending_arraySort: "descending (arraySort longestFirst xs)"
proof (induction xs)
  case Nil
  show ?case by (simp add: descending_def)
next
  case (Cons x xs)
  then show ?case by (simp add: descending_insertBy)
qed

text \<open>
  Inserting \<open>x\<close> into a descending list puts it in front of the first element that is
  not longer: it becomes the first hit exactly when it is a hit and no hit of the list is
  longer.
\<close>

lemma find_insertBy_longest:
  assumes "descending ys"
  shows "find P (insertBy longestFirst x ys) =
     (if P x \<and> (\<forall>y \<in> set ys. P y \<longrightarrow> length (prefix y) \<le> length (prefix x))
      then Some x else find P ys)"
  using assms unfolding descending_def
  by (induction ys) (auto simp: longestFirst_def)

lemma find_arraySort_longest:
  "find (\<lambda>r. startsWith path (prefix r)) (arraySort longestFirst xs)
     = find (longestMatch path xs) xs"
proof (induction xs)
  case Nil
  show ?case by simp
next
  case (Cons x xs)
  let ?P = "\<lambda>r. startsWith path (prefix r)"
  have ins: "find ?P (arraySort longestFirst (x # xs)) =
      (if ?P x \<and> (\<forall>y \<in> set xs. ?P y \<longrightarrow> length (prefix y) \<le> length (prefix x))
       then Some x else find ?P (arraySort longestFirst xs))"
    using find_insertBy_longest [OF descending_arraySort, of ?P x xs]
    by (simp add: set_arraySort)
  show ?case
  proof (cases "longestMatch path (x # xs) x")
    case True
    then have "?P x \<and> (\<forall>y \<in> set xs. ?P y \<longrightarrow> length (prefix y) \<le> length (prefix x))"
      by (simp add: longestMatch_def)
    then have "find ?P (arraySort longestFirst (x # xs)) = Some x"
      using ins by simp
    then show ?thesis using True by simp
  next
    case False
    then have nx: "\<not> (?P x \<and> (\<forall>y \<in> set xs. ?P y \<longrightarrow> length (prefix y) \<le> length (prefix x)))"
      by (simp add: longestMatch_def)
    have same: "find (longestMatch path (x # xs)) xs = find (longestMatch path xs) xs"
    proof (rule find_cong [OF refl])
      fix r assume "r \<in> set xs"
      show "longestMatch path (x # xs) r = longestMatch path xs r"
        using False \<open>r \<in> set xs\<close> unfolding longestMatch_def
        by (auto dest: order_trans)
    qed
    have "find ?P (arraySort longestFirst (x # xs)) = find ?P (arraySort longestFirst xs)"
      using ins nx by simp
    also have "\<dots> = find (longestMatch path xs) xs" by (rule Cons.IH)
    also have "\<dots> = find (longestMatch path (x # xs)) (x # xs)"
      using same False by simp
    finally show ?thesis .
  qed
qed

text \<open>What \<^verbatim>\<open>applyInit\<close> leaves in \<^verbatim>\<open>state.routes\<close>.\<close>

lemma routes_registerDef: "routes (registerDef e s) = routes s"
  by (cases e) (simp add: registerDef_def split: jsval.splits)

lemma routes_fold_registerDef: "routes (fold registerDef kvs s) = routes s"
  by (induction kvs arbitrary: s) (simp_all add: routes_registerDef)

lemma routes_applyInit:
  "routes (applyInit msg s) =
     (if isArray (getp msg ''routes'') then normalizeRoutes (getp msg ''routes'') else routes s)"
  by (simp add: applyInit_def Let_def routes_fold_registerDef
           split: jsval.splits jsnum.splits)

text \<open>
  C1.  For every route set accepted at initialization and every path, \<^verbatim>\<open>matchRoute\<close>
  returns the binding with the longest prefix that is a literal prefix of the path, or
  no match if no prefix is one; among bindings whose prefixes are equally long the
  earliest declared wins.  With \<open>cleanRoutes rs\<close> the accepted bindings in declaration
  order: the result is the first longest match in declaration order; it is no match
  exactly when no accepted prefix is a prefix of the path; and a returned binding stands
  at an index of the declaration order before which nothing is a longest match.
\<close>

theorem matchRoute_longest_prefix:
  assumes "getp msg ''routes'' = JArray rs"
  shows "matchRoute path (applyInit msg s)
           = find (longestMatch path (cleanRoutes rs)) (cleanRoutes rs)
       \<and> (matchRoute path (applyInit msg s) = None
            \<longleftrightarrow> (\<forall>r \<in> set (cleanRoutes rs). \<not> startsWith path (prefix r)))
       \<and> (\<forall>r. matchRoute path (applyInit msg s) = Some r \<longrightarrow>
            (\<exists>i < length (cleanRoutes rs).
               cleanRoutes rs ! i = r \<and> longestMatch path (cleanRoutes rs) r \<and>
               (\<forall>j < i. \<not> longestMatch path (cleanRoutes rs) (cleanRoutes rs ! j))))"
proof -
  have rts: "routes (applyInit msg s) = arraySort longestFirst (cleanRoutes rs)"
    using assms by (simp add: routes_applyInit normalizeRoutes_def)
  have first: "matchRoute path (applyInit msg s)
                 = find (longestMatch path (cleanRoutes rs)) (cleanRoutes rs)"
    by (simp add: matchRoute_def rts find_arraySort_longest)
  have none: "matchRoute path (applyInit msg s) = None
                \<longleftrightarrow> (\<forall>r \<in> set (cleanRoutes rs). \<not> startsWith path (prefix r))"
    by (auto simp: matchRoute_def rts find_None_iff set_arraySort)
  have some: "\<forall>r. matchRoute path (applyInit msg s) = Some r \<longrightarrow>
            (\<exists>i < length (cleanRoutes rs).
               cleanRoutes rs ! i = r \<and> longestMatch path (cleanRoutes rs) r \<and>
               (\<forall>j < i. \<not> longestMatch path (cleanRoutes rs) (cleanRoutes rs ! j)))"
    unfolding first find_Some_iff by blast
  from first none some show ?thesis by blast
qed

theorem matchRoute_longest_prefix_witness:
  "getp (JObject [(''kind'', JString ''control.init''), (''routes'', JArray exampleRoutes)])
        ''routes'' = JArray exampleRoutes
   \<and> matchRoute ''/hx/tests/sig''
        (applyInit (JObject [(''kind'', JString ''control.init''),
                             (''routes'', JArray exampleRoutes)]) initialState)
       = Some \<lparr> prefix = ''/hx/tests'', worker = ''b'' \<rparr>"
proof -
  have h: "getp (JObject [(''kind'', JString ''control.init''), (''routes'', JArray exampleRoutes)])
             ''routes'' = JArray exampleRoutes"
    by simp
  have c: "cleanRoutes exampleRoutes =
      [\<lparr> prefix = ''/hx'', worker = ''a'' \<rparr>, \<lparr> prefix = ''/hx/tests'', worker = ''b'' \<rparr>,
       \<lparr> prefix = ''/hx/tests'', worker = ''d'' \<rparr>, \<lparr> prefix = ''/hx/tests/kem'', worker = ''e'' \<rparr>]"
    by (simp add: cleanRoutes_def exampleRoutes_def asRoute_def)
  show ?thesis
    using h matchRoute_longest_prefix [OF h, of "''/hx/tests/sig''" initialState]
    by (simp add: c longestMatch_def startsWith_def)
qed

section \<open>Properties: request validation\<close>

lemma replaceAll_append:
  "replaceAll c r (xs @ ys) = replaceAll c r xs @ replaceAll c r ys"
  by (induction xs) auto

text \<open>The five replacements in sequence escape each character once: no replacement
  text holds a character that a later replacement looks for.\<close>

lemma escapeHtml_htmlEscaped: "escapeHtml s = htmlEscaped s"
proof (induction s)
  case Nil
  show ?case by (simp add: escapeHtml_def htmlEscaped_def)
next
  case (Cons x xs)
  then have IH: "replaceAll (CHR 0x27) ''&#39;''
       (replaceAll (CHR 0x22) ''&quot;''
          (replaceAll CHR ''>'' ''&gt;''
             (replaceAll CHR ''<'' ''&lt;''
                (replaceAll CHR ''&'' ''&amp;'' xs)))) = concat (map escapeChar xs)"
    by (simp add: escapeHtml_def htmlEscaped_def)
  show ?case
    by (simp add: escapeHtml_def htmlEscaped_def escapeChar_def replaceAll_append IH)
qed

lemma stringIncludes_middle: "stringIncludes (a @ t @ b) t"
proof (induction a)
  case Nil
  have sw: "startsWith (t @ b) t" by (simp add: startsWith_def)
  show ?case
  proof (cases "t @ b")
    case Nil
    then show ?thesis by simp
  next
    case (Cons y ys)
    then show ?thesis using sw by simp
  qed
next
  case (Cons x a)
  then show ?case by simp
qed

lemma stringIncludes_iff: "stringIncludes s t \<longleftrightarrow> (\<exists>a b. s = a @ t @ b)"
proof
  show "stringIncludes s t \<Longrightarrow> \<exists>a b. s = a @ t @ b"
  proof (induction s)
    case Nil
    then show ?case by simp
  next
    case (Cons x xs)
    show ?case
    proof (cases "startsWith (x # xs) t")
      case True
      then have "x # xs = [] @ t @ drop (length t) (x # xs)"
        unfolding startsWith_def by (metis append_Nil append_take_drop_id)
      then show ?thesis by blast
    next
      case False
      with Cons.prems have "stringIncludes xs t" by simp
      then obtain a b where "xs = a @ t @ b" using Cons.IH by blast
      then have "x # xs = (x # a) @ t @ b" by simp
      then show ?thesis by blast
    qed
  qed
next
  show "\<exists>a b. s = a @ t @ b \<Longrightarrow> stringIncludes s t"
    using stringIncludes_middle by blast
qed

lemma nonEmptyString_Some_iff: "nonEmptyString v = Some r \<longleftrightarrow> (v = JString r \<and> r \<noteq> [])"
  by (cases v) auto

lemma nonEmptyString_None_iff: "nonEmptyString v = None \<longleftrightarrow> \<not> (\<exists>r. r \<noteq> [] \<and> v = JString r)"
  by (cases v) auto

text \<open>An object that says \<^verbatim>\<open>kind: "hx.request"\<close> goes to \<^verbatim>\<open>handleHxRequest\<close>.\<close>

lemma onmessage_hx_request:
  assumes "getp msg ''kind'' = JString ''hx.request''"
  shows "onmessage B msg s = handleHxRequest B msg s"
proof -
  obtain kvs where "msg = JObject kvs"
    using assms by (cases msg) auto
  then show ?thesis using assms by (simp add: onmessage_def orElse_def)
qed

text \<open>
  C7.  For every \<^verbatim>\<open>hx.request\<close> with a valid id whose path is a non-empty string
  that no configured route prefix is a prefix of, the router posts one message: a
  response with status 404 addressed to the request id, whose body contains the path
  with \<^verbatim>\<open>&\<close>, \<^verbatim>\<open><\<close>, \<^verbatim>\<open>>\<close>, \<^verbatim>\<open>"\<close> and \<^verbatim>\<open>'\<close> HTML-escaped.  Nothing else of the
  state changes.
\<close>

theorem unrouted_path_404:
  assumes "getp msg ''kind'' = JString ''hx.request''"
    and "getp msg ''id'' = JString rid" and "rid \<noteq> []"
    and "getp msg ''path'' = JString path" and "path \<noteq> []"
    and "\<forall>r \<in> set (routes s). \<not> startsWith path (prefix r)"
  shows "onmessage B msg s =
           s\<lparr> sent := sent s @
                [HxResponse rid 404
                   (divFail @ ''No worker route for path '' @ apos @ htmlEscaped path @ apos
                      @ ''.</div>'')
                   htmlHeaders] \<rparr>
       \<and> stringIncludes
           (divFail @ ''No worker route for path '' @ apos @ htmlEscaped path @ apos @ ''.</div>'')
           (htmlEscaped path)"
proof -
  have id: "nonEmptyString (getp msg ''id'') = Some rid"
    using assms(2,3) by simp
  have pa: "nonEmptyString (getp msg ''path'') = Some path"
    using assms(4,5) by simp
  have no: "matchRoute path s = None"
    using assms(6) by (simp add: matchRoute_def find_None_iff)
  have "handleHxRequest B msg s = sendHxResponse rid 404 (notFoundBody path) htmlHeaders s"
    by (simp add: handleHxRequest_def id pa no)
  then have run: "onmessage B msg s =
           s\<lparr> sent := sent s @
                [HxResponse rid 404
                   (divFail @ ''No worker route for path '' @ apos @ htmlEscaped path @ apos
                      @ ''.</div>'')
                   htmlHeaders] \<rparr>"
    using onmessage_hx_request [OF assms(1)]
    by (simp add: sendHxResponse_def send_def notFoundBody_def escapeHtml_htmlEscaped)
  have inc: "stringIncludes
           (divFail @ ''No worker route for path '' @ apos @ htmlEscaped path @ apos @ ''.</div>'')
           (htmlEscaped path)"
    using stringIncludes_middle
      [of "divFail @ ''No worker route for path '' @ apos" "htmlEscaped path" "apos @ ''.</div>''"]
    by simp
  from run inc show ?thesis by blast
qed

theorem unrouted_path_404_witness:
  "sent (onmessage exampleBuiltins oddPathRequest oneRouteState) =
     [HxResponse ''r1'' 404
        (divFail @ ''No worker route for path '' @ apos @ ''/a&amp;b&lt;c&gt;&quot;&#39;'' @ apos
           @ ''.</div>'')
        htmlHeaders]"
proof -
  have 1: "getp oddPathRequest ''kind'' = JString ''hx.request''"
    by (simp add: oddPathRequest_def)
  have 2: "getp oddPathRequest ''id'' = JString ''r1''"
    by (simp add: oddPathRequest_def)
  have 4: "getp oddPathRequest ''path'' = JString (''/a&b<c>'' @ [CHR 0x22, CHR 0x27])"
    by (simp add: oddPathRequest_def)
  have 6: "\<forall>r \<in> set (routes oneRouteState).
             \<not> startsWith (''/a&b<c>'' @ [CHR 0x22, CHR 0x27]) (prefix r)"
    by (simp add: oneRouteState_def startsWith_def)
  show ?thesis
    using unrouted_path_404 [OF 1 2 _ 4 _ 6, of exampleBuiltins]
    by (simp add: oneRouteState_def initialState_def htmlEscaped_def escapeChar_def)
qed

text \<open>
  C8.  For every \<^verbatim>\<open>hx.request\<close> whose id is not a non-empty string the router posts
  one message, a protocol-error envelope, and so no \<^verbatim>\<open>hx.response\<close>; for every
  \<^verbatim>\<open>hx.request\<close> with a non-empty string id whose path is not a non-empty string it
  posts one message, a response with status 400 addressed to that id.
\<close>

theorem invalid_request_rejected:
  assumes "getp msg ''kind'' = JString ''hx.request''"
  shows "(\<not> (\<exists>r. r \<noteq> [] \<and> getp msg ''id'' = JString r) \<longrightarrow>
            onmessage B msg s =
              s\<lparr> sent := sent s @
                   [ErrorEnvelope JNull ''INVALID_REQUEST''
                      ''hx.request requires non-empty string id''] \<rparr>
            \<and> hxResponses (sent (onmessage B msg s)) = hxResponses (sent s))
       \<and> (\<forall>rid. rid \<noteq> [] \<and> getp msg ''id'' = JString rid
              \<and> \<not> (\<exists>p. p \<noteq> [] \<and> getp msg ''path'' = JString p) \<longrightarrow>
            onmessage B msg s =
              s\<lparr> sent := sent s @
                   [HxResponse rid 400 (divFail @ ''Missing request path.</div>'') htmlHeaders] \<rparr>)"
proof -
  have a: "onmessage B msg s =
              s\<lparr> sent := sent s @
                   [ErrorEnvelope JNull ''INVALID_REQUEST''
                      ''hx.request requires non-empty string id''] \<rparr>
            \<and> hxResponses (sent (onmessage B msg s)) = hxResponses (sent s)"
    if "\<not> (\<exists>r. r \<noteq> [] \<and> getp msg ''id'' = JString r)"
  proof -
    have "nonEmptyString (getp msg ''id'') = None"
      using that by (simp add: nonEmptyString_None_iff)
    then show ?thesis
      using onmessage_hx_request [OF assms, of B s]
      by (simp add: handleHxRequest_def sendProtocolError_def send_def hxResponses_def)
  qed
  have b: "onmessage B msg s =
              s\<lparr> sent := sent s @
                   [HxResponse rid 400 (divFail @ ''Missing request path.</div>'') htmlHeaders] \<rparr>"
    if "rid \<noteq> [] \<and> getp msg ''id'' = JString rid
          \<and> \<not> (\<exists>p. p \<noteq> [] \<and> getp msg ''path'' = JString p)" for rid
  proof -
    have "nonEmptyString (getp msg ''id'') = Some rid"
      using that by simp
    moreover have "nonEmptyString (getp msg ''path'') = None"
      using that by (simp add: nonEmptyString_None_iff)
    ultimately show ?thesis
      using onmessage_hx_request [OF assms, of B s]
      by (simp add: handleHxRequest_def sendHxResponse_def send_def)
  qed
  from a b show ?thesis by blast
qed

text \<open>A request whose id is a number, and one with an id and an empty path.\<close>

theorem invalid_request_rejected_witness:
  "sent (onmessage exampleBuiltins (JObject [(''kind'', JString ''hx.request''), (''id'', JNumber (Finite 7)),
                               (''path'', JString ''/hx/tests'')]) initialState)
     = [ErrorEnvelope JNull ''INVALID_REQUEST'' ''hx.request requires non-empty string id'']
   \<and> sent (onmessage exampleBuiltins (JObject [(''kind'', JString ''hx.request''), (''id'', JString ''r1''),
                                 (''path'', JString [])]) initialState)
     = [HxResponse ''r1'' 400 (divFail @ ''Missing request path.</div>'') htmlHeaders]"
proof -
  have 1: "getp (JObject [(''kind'', JString ''hx.request''), (''id'', JNumber (Finite 7)),
                          (''path'', JString ''/hx/tests'')]) ''kind'' = JString ''hx.request''"
    by simp
  have 2: "getp (JObject [(''kind'', JString ''hx.request''), (''id'', JString ''r1''),
                          (''path'', JString [])]) ''kind'' = JString ''hx.request''"
    by simp
  show ?thesis
    using invalid_request_rejected [OF 1, of exampleBuiltins initialState]
      invalid_request_rejected [OF 2, of exampleBuiltins initialState]
    by (simp add: initialState_def)
qed

section \<open>Properties: dispatch\<close>

text \<open>
  What \<^verbatim>\<open>ensureWorker\<close> does when it returns: it touches the session table and posts
  to workers, nothing else, and posts no \<^verbatim>\<open>hx.response\<close>.
\<close>

lemma hxResponses_append: "hxResponses (xs @ ys) = hxResponses xs @ hxResponses ys"
  by (simp add: hxResponses_def)

lemma ensureWorker_frame:
  assumes "ensureWorker w s = Inr (info, s1)"
  shows "pending s1 = pending s" and "timers s1 = timers s"
    and "nextTimeoutId s1 = nextTimeoutId s"
    and "activeLegacyByWorker s1 = activeLegacyByWorker s"
    and "requestTimeoutMs s1 = requestTimeoutMs s"
    and "routes s1 = routes s" and "workerDefs s1 = workerDefs s"
    and "hxResponses (sent s1) = hxResponses (sent s)"
    and "map_of (workers s1) w = Some info"
  using assms
  by (auto simp: ensureWorker_def Let_def send_def hxResponses_def AList.update_conv'
           split: option.splits if_splits)



text \<open>
  C5.  For every request dispatched to a native-mode worker whose session (the one
  \<^verbatim>\<open>ensureWorker\<close> returns: the existing one, or the one it has just created) is not
  ready, \<^verbatim>\<open>dispatchProtocolRequest\<close> returns at once having posted one
  \<^verbatim>\<open>hx.response\<close>, with status 503 and addressed to the request id, as its last
  message (\<open>s1\<close> is the state \<^verbatim>\<open>ensureWorker\<close> leaves); the pending table is
  unchanged and no timer is armed.
\<close>

theorem not_ready_503:
  assumes "ensureWorker (worker rt) s = Inr (info, s1)"
    and "\<not> ready info"
  shows "dispatchProtocolRequest rid rt reqMsg s =
           Inr (s1\<lparr> sent := sent s1 @
                  [HxResponse rid 503
                     (divInfo @ ''Worker '' @ apos @ escapeHtml (worker rt) @ apos
                        @ '' is still warming up.</div>'')
                     htmlHeaders] \<rparr>)
       \<and> hxResponses (sent s1) = hxResponses (sent s)
       \<and> pending s1 = pending s
       \<and> timers s1 = timers s
       \<and> nextTimeoutId s1 = nextTimeoutId s"
  using assms ensureWorker_frame [OF assms(1)]
  by (simp add: dispatchProtocolRequest_def sendHxResponse_def send_def)

theorem not_ready_503_witness:
  "dispatchProtocolRequest ''r1'' \<lparr> prefix = ''/hx/kem'', worker = ''kem'' \<rparr> kemRequest coldState
     = Inr (coldStateWithSession
             \<lparr> sent := sent coldStateWithSession @
                  [HxResponse ''r1'' 503
                     (divInfo @ ''Worker '' @ apos @ ''kem'' @ apos @ '' is still warming up.</div>'')
                     htmlHeaders] \<rparr>)
   \<and> pending coldStateWithSession = pending coldState"
proof -
  have e: "ensureWorker (worker \<lparr> prefix = ''/hx/kem'', worker = ''kem'' \<rparr>) coldState
             = Inr (\<lparr> name = ''kem'', mode = ''protocol'', ready = False \<rparr>, coldStateWithSession)"
    by (simp add: ensureWorker_def coldState_def coldStateWithSession_def initialState_def
          Let_def send_def)
  have r: "\<not> ready \<lparr> name = ''kem'', mode = ''protocol'', ready = False \<rparr>"
    by simp
  show ?thesis
    using not_ready_503 [OF e r, of "''r1''" kemRequest]
    by (simp add: escapeHtml_def)
qed

section \<open>Reachable states are well formed\<close>

lemmas sending = send_def sendHxResponse_def sendProtocolError_def sendEvent_def

lemmas wellFormed_defs =
  wellFormed_def sessionsNamed_def slotsNonEmpty_def pendingNonEmpty_def timersBelow_def
  timersDistinct_def

lemma wellFormed_initialState: "wellFormed initialState"
  by (simp add: wellFormed_defs initialState_def)

lemma wellFormed_sent [simp]: "wellFormed (s\<lparr> sent := ms \<rparr>) = wellFormed s"
  by (simp add: wellFormed_defs)

lemma wellFormed_send [simp]: "wellFormed (send m s) = wellFormed s"
  by (simp add: send_def)

lemma wellFormed_sendHxResponse [simp]:
  "wellFormed (sendHxResponse rid st b h s) = wellFormed s"
  by (simp add: sendHxResponse_def)

lemma wellFormed_sendProtocolError [simp]:
  "wellFormed (sendProtocolError c m rid s) = wellFormed s"
  by (simp add: sendProtocolError_def)

lemma wellFormed_sendEvent [simp]: "wellFormed (sendEvent rid e d s) = wellFormed s"
  by (simp add: sendEvent_def)

lemma wellFormed_routes [simp]: "wellFormed (s\<lparr> routes := rs \<rparr>) = wellFormed s"
  by (simp add: wellFormed_defs)

lemma wellFormed_workerDefs [simp]: "wellFormed (s\<lparr> workerDefs := ds \<rparr>) = wellFormed s"
  by (simp add: wellFormed_defs)

lemma wellFormed_requestTimeoutMs [simp]:
  "wellFormed (s\<lparr> requestTimeoutMs := n \<rparr>) = wellFormed s"
  by (simp add: wellFormed_defs)

lemma wellFormed_registerDef [simp]: "wellFormed (registerDef e s) = wellFormed s"
  by (cases e) (simp add: registerDef_def split: jsval.splits)

lemma wellFormed_fold_registerDef [simp]:
  "wellFormed (fold registerDef kvs s) = wellFormed s"
  by (induction kvs arbitrary: s) simp_all

lemma wellFormed_applyInit [simp]: "wellFormed (applyInit msg s) = wellFormed s"
  by (simp add: applyInit_def Let_def split: jsval.splits jsnum.splits)

text \<open>Deleting a pending entry and clearing a timer keep the state well formed.\<close>

lemma wellFormed_clearPending:
  assumes "wellFormed s"
  shows "wellFormed (clearPending r s)"
proof (cases "map_of (pending s) r")
  case None
  then show ?thesis using assms by (simp add: clearPending_def)
next
  case (Some p)
  let ?s' = "s\<lparr> timers := (timers s)(timeoutId p := None),
                 pending := AList.delete r (pending s) \<rparr>"
  have "sessionsNamed ?s'" "slotsNonEmpty ?s'"
    using assms by (simp_all add: wellFormed_defs)
  moreover have "pendingNonEmpty ?s'"
    using assms unfolding wellFormed_def pendingNonEmpty_def
    by (auto simp: AList.delete_conv' split: if_splits)
  moreover have "timersBelow ?s'"
    using assms unfolding wellFormed_def timersBelow_def
    by (auto simp: AList.delete_conv' split: if_splits)
  moreover have "timersDistinct ?s'"
    using assms unfolding wellFormed_def timersDistinct_def
    by (simp add: AList.delete_conv' split: if_splits)
  ultimately show ?thesis
    using Some by (simp add: clearPending_def wellFormed_def)
qed

lemma wellFormed_failOne: "wellFormed s \<Longrightarrow> wellFormed (failOne w reason e s)"
  by (cases e) (simp add: failOne_def wellFormed_clearPending)

lemma wellFormed_fold_failOne:
  "wellFormed s \<Longrightarrow> wellFormed (fold (failOne w reason) es s)"
  by (induction es arbitrary: s) (simp_all add: wellFormed_failOne)

lemma wellFormed_failPendingForWorker:
  "wellFormed s \<Longrightarrow> wellFormed (failPendingForWorker w reason s)"
  by (simp add: failPendingForWorker_def wellFormed_fold_failOne)

lemma wellFormed_workers_update:
  assumes "wellFormed s" and "name info = w"
  shows "wellFormed (s\<lparr> workers := AList.update w info (workers s) \<rparr>)"
proof -
  have "sessionsNamed (s\<lparr> workers := AList.update w info (workers s) \<rparr>)"
    using assms unfolding wellFormed_def sessionsNamed_def
    by (auto simp: AList.update_conv' split: if_splits)
  then show ?thesis
    using assms(1)
    by (simp add: wellFormed_def slotsNonEmpty_def pendingNonEmpty_def timersBelow_def
          timersDistinct_def)
qed

lemma wellFormed_ensureWorker:
  assumes "wellFormed s" and "ensureWorker w s = Inr (info, s1)"
  shows "wellFormed s1"
proof (cases "map_of (workers s) w")
  case (Some i)
  then show ?thesis using assms by (simp add: ensureWorker_def)
next
  case None
  then obtain d where d: "map_of (workerDefs s) w = Some d"
    using assms(2) by (auto simp: ensureWorker_def split: option.splits)
  let ?info = "\<lparr> name = w, mode = def_mode d, ready = (def_mode d = ''legacy-liboqs'') \<rparr>"
  have "\<exists>ms. s1 = (s\<lparr> sent := ms \<rparr>)\<lparr> workers := AList.update w ?info (workers s) \<rparr>"
    using assms(2) None d by (auto simp: ensureWorker_def Let_def send_def)
  then obtain ms where "s1 = (s\<lparr> sent := ms \<rparr>)\<lparr> workers := AList.update w ?info (workers s) \<rparr>"
    by blast
  then show ?thesis
    using wellFormed_workers_update [of "s\<lparr> sent := ms \<rparr>" ?info w] assms(1) by simp
qed

lemma wellFormed_handleProtocolWorkerMessage:
  assumes "wellFormed s"
  shows "wellFormed (handleProtocolWorkerMessage info msg s)"
  using assms wellFormed_workers_update [OF assms, of "info\<lparr> ready := True \<rparr>" "name info"]
  by (simp add: handleProtocolWorkerMessage_def Let_def wellFormed_clearPending)

lemma wellFormed_slot_delete:
  assumes "wellFormed s"
  shows "wellFormed (s\<lparr> activeLegacyByWorker := AList.delete w (activeLegacyByWorker s) \<rparr>)"
proof -
  have "slotsNonEmpty (s\<lparr> activeLegacyByWorker := AList.delete w (activeLegacyByWorker s) \<rparr>)"
    using assms unfolding wellFormed_def slotsNonEmpty_def
    by (auto simp: AList.delete_conv' split: if_splits)
  then show ?thesis
    using assms
    by (simp add: wellFormed_def sessionsNamed_def pendingNonEmpty_def timersBelow_def
          timersDistinct_def)
qed

lemma wellFormed_slot_update:
  assumes "wellFormed s" and "rid \<noteq> []"
  shows "wellFormed (s\<lparr> activeLegacyByWorker := AList.update w rid (activeLegacyByWorker s) \<rparr>)"
proof -
  have "slotsNonEmpty (s\<lparr> activeLegacyByWorker := AList.update w rid (activeLegacyByWorker s) \<rparr>)"
    using assms unfolding wellFormed_def slotsNonEmpty_def
    by (auto simp: AList.update_conv' split: if_splits)
  then show ?thesis
    using assms(1)
    by (simp add: wellFormed_def sessionsNamed_def pendingNonEmpty_def timersBelow_def
          timersDistinct_def)
qed

lemma wellFormed_handleLegacyLiboqsMessage:
  assumes "wellFormed s"
  shows "wellFormed (handleLegacyLiboqsMessage info msg s)"
proof -
  have "wellFormed ((s\<lparr> sent := ms \<rparr>)
          \<lparr> activeLegacyByWorker := AList.delete w (activeLegacyByWorker s) \<rparr>)" for ms w
    using wellFormed_slot_delete [of "s\<lparr> sent := ms \<rparr>" w] assms by simp
  then show ?thesis
    using assms by (simp add: handleLegacyLiboqsMessage_def Let_def sendEvent_def send_def)
qed

lemma wellFormed_workerOnMessage:
  "wellFormed s \<Longrightarrow> wellFormed (workerOnMessage w dat s)"
  by (simp add: workerOnMessage_def handleWorkerMessage_def
        wellFormed_handleProtocolWorkerMessage wellFormed_handleLegacyLiboqsMessage
      split: option.splits)

lemma wellFormed_workerOnError:
  "wellFormed s \<Longrightarrow> wellFormed (workerOnError w m s)"
  by (simp add: workerOnError_def Let_def wellFormed_failPendingForWorker split: option.splits)

lemma wellFormed_timer_removed:
  assumes "wellFormed s"
  shows "wellFormed (s\<lparr> timers := (timers s)(tid := None) \<rparr>)"
proof -
  have "timersBelow (s\<lparr> timers := (timers s)(tid := None) \<rparr>)"
    using assms unfolding wellFormed_def timersBelow_def by auto
  then show ?thesis
    using assms
    by (simp add: wellFormed_def sessionsNamed_def pendingNonEmpty_def slotsNonEmpty_def
          timersDistinct_def)
qed

lemma wellFormed_timerFired:
  assumes "wellFormed s"
  shows "wellFormed (timerFired B tid s)"
proof (cases "timers s tid")
  case None
  then show ?thesis using assms by (simp add: timerFired_def)
next
  case (Some a)
  obtain rid delay where a: "a = (rid, delay)" by (cases a)
  show ?thesis
    using Some a wellFormed_timer_removed [OF assms, of tid]
    by (simp add: timerFired_def timerCallback_def Let_def wellFormed_clearPending)
qed

text \<open>Arming a fresh timer and recording it under a non-empty id.\<close>

lemma wellFormed_pending_set:
  assumes "wellFormed s" and "rid \<noteq> []"
  shows "wellFormed (s\<lparr> timers := (timers s)(nextTimeoutId s \<mapsto> (rid, d)),
                       nextTimeoutId := Suc (nextTimeoutId s),
                       pending := AList.update rid
                          \<lparr> workerName = w, timeoutId = nextTimeoutId s \<rparr> (pending s) \<rparr>)"
    (is "wellFormed ?s'")
proof -
  have below: "\<And>r p. map_of (pending s) r = Some p \<Longrightarrow> timeoutId p < nextTimeoutId s"
    and tb: "\<And>t. timers s t \<noteq> None \<Longrightarrow> t < nextTimeoutId s"
    and dist: "\<And>r r' p p'. map_of (pending s) r = Some p \<Longrightarrow> map_of (pending s) r' = Some p'
         \<Longrightarrow> timeoutId p = timeoutId p' \<Longrightarrow> r = r'"
    and ne: "\<And>r p. map_of (pending s) r = Some p \<Longrightarrow> r \<noteq> []"
    using assms(1) unfolding wellFormed_defs by blast+
  have "sessionsNamed ?s'" "slotsNonEmpty ?s'"
    using assms(1) by (simp_all add: wellFormed_defs)
  moreover have "pendingNonEmpty ?s'"
    unfolding pendingNonEmpty_def using ne assms(2)
    by (auto simp: AList.update_conv' split: if_splits)
  moreover have "timersBelow ?s'"
    unfolding timersBelow_def using below tb
    by (auto simp: AList.update_conv' less_Suc_eq split: if_splits)
  moreover have "timersDistinct ?s'"
    unfolding timersDistinct_def
  proof (intro allI impI, elim conjE)
    fix r r' p p'
    assume 1: "map_of (pending ?s') r = Some p" and 2: "map_of (pending ?s') r' = Some p'"
      and 3: "timeoutId p = timeoutId p'"
    show "r = r'"
    proof (cases "r = rid")
      case True
      then have "timeoutId p = nextTimeoutId s" using 1 by (auto simp: AList.update_conv')
      then show ?thesis
        using True 2 3 below [of r' p'] by (auto simp: AList.update_conv' split: if_splits)
    next
      case False
      then have p: "map_of (pending s) r = Some p" using 1 by (simp add: AList.update_conv')
      show ?thesis
      proof (cases "r' = rid")
        case True
        then have "timeoutId p' = nextTimeoutId s" using 2 by (auto simp: AList.update_conv')
        then show ?thesis using below [OF p] 3 by simp
      next
        case r': False
        then have "map_of (pending s) r' = Some p'" using 2 by (simp add: AList.update_conv')
        then show ?thesis using dist [OF p _ 3] by simp
      qed
    qed
  qed
  ultimately show ?thesis by (simp add: wellFormed_def)
qed

lemma wellFormed_dispatchProtocolRequest:
  assumes "wellFormed s" and "rid \<noteq> []"
    and "dispatchProtocolRequest rid rt reqMsg s = Inr s'"
  shows "wellFormed s'"
proof -
  obtain info s1 where e: "ensureWorker (worker rt) s = Inr (info, s1)"
    using assms(3) by (auto simp: dispatchProtocolRequest_def split: sum.splits)
  have w1: "wellFormed s1" using wellFormed_ensureWorker [OF assms(1) e] .
  show ?thesis
  proof (cases "ready info")
    case False
    then show ?thesis using assms(3) e w1 by (auto simp: dispatchProtocolRequest_def)
  next
    case True
    then show ?thesis
      using assms(3) e
        wellFormed_pending_set [OF w1 assms(2), where d = "requestTimeoutMs s1" and w = "worker rt"]
      by (auto simp: dispatchProtocolRequest_def setTimeout_def Let_def)
  qed
qed

lemma wellFormed_dispatchLegacyLiboqsRequest:
  assumes "wellFormed s" and "rid \<noteq> []"
    and "dispatchLegacyLiboqsRequest rid rt reqMsg s = Inr s'"
  shows "wellFormed s'"
proof -
  obtain info s1 where e: "ensureWorker (worker rt) s = Inr (info, s1)"
    using assms(3) by (auto simp: dispatchLegacyLiboqsRequest_def split: sum.splits)
  have w1: "wellFormed s1" using wellFormed_ensureWorker [OF assms(1) e] .
  show ?thesis
    using assms(3) e w1 wellFormed_slot_update [OF w1 assms(2), of "worker rt"]
    by (auto simp: dispatchLegacyLiboqsRequest_def Let_def split: if_splits)
qed

lemma wellFormed_handleHxRequest:
  assumes "wellFormed s"
  shows "wellFormed (handleHxRequest B msg s)"
  using assms wellFormed_dispatchProtocolRequest [OF assms]
    wellFormed_dispatchLegacyLiboqsRequest [OF assms]
  by (auto simp: handleHxRequest_def Let_def nonEmptyString_Some_iff
        split: option.splits sum.splits)

lemma wellFormed_onmessage: "wellFormed s \<Longrightarrow> wellFormed (onmessage B dat s)"
  by (simp add: onmessage_def Let_def wellFormed_handleHxRequest)

lemma wellFormed_step: "wellFormed s \<Longrightarrow> wellFormed (step B ev s)"
  by (cases ev)
     (simp_all add: wellFormed_onmessage wellFormed_workerOnMessage wellFormed_workerOnError
        wellFormed_timerFired)

lemma wellFormed_run: "wellFormed s \<Longrightarrow> wellFormed (run B evs s)"
  unfolding run_def by (induction evs arbitrary: s) (simp_all add: wellFormed_step)

lemma wellFormed_reachable: "wellFormed (run B evs initialState)"
  by (rule wellFormed_run [OF wellFormed_initialState])

section \<open>Properties: the legacy adapter\<close>

text \<open>The three outcomes of \<^verbatim>\<open>dispatchLegacyLiboqsRequest\<close> once the session is there.\<close>

lemma dispatchLegacy_busy:
  assumes "ensureWorker (worker rt) s = Inr (info, s1)"
    and "map_of (activeLegacyByWorker s) (worker rt) = Some cur" and "cur \<noteq> []"
  shows "dispatchLegacyLiboqsRequest rid rt reqMsg s =
           Inr (s1\<lparr> sent := sent s1 @ [HxResponse rid 409 (busyBody cur) htmlHeaders] \<rparr>)"
  using assms ensureWorker_frame(4) [OF assms(1)]
  by (simp add: dispatchLegacyLiboqsRequest_def Let_def sendHxResponse_def send_def)

lemma dispatchLegacy_free_other:
  assumes "ensureWorker (worker rt) s = Inr (info, s1)"
    and "slotFree s (worker rt)"
    and "getp reqMsg ''path'' \<noteq> JString runPath"
  shows "dispatchLegacyLiboqsRequest rid rt reqMsg s =
           Inr (s1\<lparr> sent := sent s1 @
                  [HxResponse rid 404
                     (divFail @ ''Legacy liboqs adapter only supports /hx/tests/liboqs/run.</div>'')
                     htmlHeaders] \<rparr>)"
  using assms ensureWorker_frame(4) [OF assms(1)]
  by (auto simp: dispatchLegacyLiboqsRequest_def Let_def sendHxResponse_def send_def
        slotFree_def runPath_def)

lemma dispatchLegacy_free_run:
  assumes "ensureWorker (worker rt) s = Inr (info, s1)"
    and "slotFree s (worker rt)"
    and "getp reqMsg ''path'' = JString runPath"
  shows "dispatchLegacyLiboqsRequest rid rt reqMsg s =
           Inr (s1\<lparr> activeLegacyByWorker := AList.update (worker rt) rid (activeLegacyByWorker s1),
                    sent := sent s1 @
                      [PostToWorker (name info) (JObject [(''type'', JString ''run'')]),
                       HxResponse rid 202
                         (divInfo @ ''liboqs run started in warm worker '' @ apos
                            @ escapeHtml (worker rt) @ apos @ ''.</div>'')
                         htmlHeaders] \<rparr>)"
  using assms ensureWorker_frame(4) [OF assms(1)]
  by (auto simp: dispatchLegacyLiboqsRequest_def Let_def sendHxResponse_def send_def
        slotFree_def runPath_def)

text \<open>
  C10.  In the legacy adapter the busy check comes before the path check.  Once the
  session is there (\<open>s1\<close> is the state \<^verbatim>\<open>ensureWorker\<close> leaves): when the worker's
  slot is bound, the adapter answers 409 whatever the request is, so also for a path
  other than \<^verbatim>\<open>/hx/tests/liboqs/run\<close>; and when it answers 404, the slot is free and
  the path is another one.
\<close>

theorem legacy_busy_before_path:
  assumes "ensureWorker (worker rt) s = Inr (info, s1)"
  shows "(\<forall>cur. map_of (activeLegacyByWorker s) (worker rt) = Some cur \<and> cur \<noteq> [] \<longrightarrow>
            (\<forall>reqMsg. dispatchLegacyLiboqsRequest rid rt reqMsg s =
               Inr (s1\<lparr> sent := sent s1 @ [HxResponse rid 409 (busyBody cur) htmlHeaders] \<rparr>)))
       \<and> (\<forall>reqMsg body hs.
            dispatchLegacyLiboqsRequest rid rt reqMsg s =
              Inr (s1\<lparr> sent := sent s1 @ [HxResponse rid 404 body hs] \<rparr>) \<longrightarrow>
            slotFree s (worker rt) \<and> getp reqMsg ''path'' \<noteq> JString runPath)"
proof -
  have busy: "dispatchLegacyLiboqsRequest rid rt reqMsg s =
               Inr (s1\<lparr> sent := sent s1 @ [HxResponse rid 409 (busyBody cur) htmlHeaders] \<rparr>)"
    if "map_of (activeLegacyByWorker s) (worker rt) = Some cur \<and> cur \<noteq> []" for cur reqMsg
    using that dispatchLegacy_busy [OF assms] by blast
  have nf: "slotFree s (worker rt) \<and> getp reqMsg ''path'' \<noteq> JString runPath"
    if eq: "dispatchLegacyLiboqsRequest rid rt reqMsg s =
              Inr (s1\<lparr> sent := sent s1 @ [HxResponse rid 404 body hs] \<rparr>)" for reqMsg body hs
  proof (cases "slotFree s (worker rt)")
    case True
    show ?thesis
    proof (cases "getp reqMsg ''path'' = JString runPath")
      case False
      with True show ?thesis by simp
    next
      case run: True
      have "Inr (s1\<lparr> sent := sent s1 @ [HxResponse rid 404 body hs] \<rparr>) =
              (Inr (s1\<lparr> activeLegacyByWorker := AList.update (worker rt) rid (activeLegacyByWorker s1),
                    sent := sent s1 @
                      [PostToWorker (name info) (JObject [(''type'', JString ''run'')]),
                       HxResponse rid 202
                         (divInfo @ ''liboqs run started in warm worker '' @ apos
                            @ escapeHtml (worker rt) @ apos @ ''.</div>'')
                         htmlHeaders] \<rparr>) :: jserror + router)"
        using eq dispatchLegacy_free_run [OF assms True run, of rid] by simp
      then have "sent (s1\<lparr> sent := sent s1 @ [HxResponse rid 404 body hs] \<rparr>) =
              sent (s1\<lparr> activeLegacyByWorker := AList.update (worker rt) rid (activeLegacyByWorker s1),
                    sent := sent s1 @
                      [PostToWorker (name info) (JObject [(''type'', JString ''run'')]),
                       HxResponse rid 202
                         (divInfo @ ''liboqs run started in warm worker '' @ apos
                            @ escapeHtml (worker rt) @ apos @ ''.</div>'')
                         htmlHeaders] \<rparr>)"
        by (simp only: sum.inject)
      then show ?thesis by simp
    qed
  next
    case False
    then obtain cur where c: "map_of (activeLegacyByWorker s) (worker rt) = Some cur" "cur \<noteq> []"
      by (auto simp: slotFree_def)
    have "Inr (s1\<lparr> sent := sent s1 @ [HxResponse rid 404 body hs] \<rparr>) =
            (Inr (s1\<lparr> sent := sent s1 @ [HxResponse rid 409 (busyBody cur) htmlHeaders] \<rparr>)
               :: jserror + router)"
      using eq dispatchLegacy_busy [OF assms c, of rid reqMsg] by simp
    then have "sent (s1\<lparr> sent := sent s1 @ [HxResponse rid 404 body hs] \<rparr>) =
            sent (s1\<lparr> sent := sent s1 @ [HxResponse rid 409 (busyBody cur) htmlHeaders] \<rparr>)"
      by (simp only: sum.inject)
    then show ?thesis by simp
  qed
  from busy nf show ?thesis by blast
qed

text \<open>While \<^verbatim>\<open>r1\<close> runs, a request for another path of the worker gets 409.\<close>

theorem legacy_busy_before_path_witness:
  "ensureWorker (worker liboqsRoute) busyState = Inr (liboqsSession, busyState)
   \<and> getp statusRequest ''path'' \<noteq> JString runPath
   \<and> dispatchLegacyLiboqsRequest ''r2'' liboqsRoute statusRequest busyState =
       Inr (busyState\<lparr> sent := [HxResponse ''r2'' 409 (busyBody ''r1'') htmlHeaders] \<rparr>)"
proof -
  have e: "ensureWorker (worker liboqsRoute) busyState = Inr (liboqsSession, busyState)"
    by (simp add: ensureWorker_def busyState_def liboqsRoute_def)
  have b: "map_of (activeLegacyByWorker busyState) (worker liboqsRoute) = Some ''r1'' \<and> ''r1'' \<noteq> []"
    by (simp add: busyState_def liboqsRoute_def)
  have p: "getp statusRequest ''path'' \<noteq> JString runPath"
    by (simp add: statusRequest_def runPath_def)
  have s: "sent busyState = []"
    by (simp add: busyState_def initialState_def)
  show ?thesis
    using e p b legacy_busy_before_path [OF e, of "''r2''"] by (simp add: s)
qed

section \<open>Properties: initialization\<close>

lemma registerDef_asWorkerDef:
  "registerDef (nm, d) s =
     (case asWorkerDef d of
        None \<Rightarrow> s
      | Some wd \<Rightarrow> s\<lparr> workerDefs := AList.update nm wd (workerDefs s) \<rparr>)"
  by (cases d)
     (auto simp: registerDef_def asWorkerDef_def objectOr_def
        split: jsval.splits option.splits)

lemma workerDefs_fold_registerDef:
  "map_of (workerDefs (fold registerDef kvs s)) =
     map_of (workerDefs s) ++ map_of (rev (acceptedDefs (JObject kvs)))"
proof (induction kvs arbitrary: s)
  case Nil
  show ?case by simp
next
  case (Cons e kvs)
  obtain nm d where e: "e = (nm, d)" by (cases e)
  show ?case
  proof (cases "asWorkerDef d")
    case None
    then show ?thesis
      using Cons.IH [of s] e by (simp add: registerDef_asWorkerDef)
  next
    case (Some wd)
    have f: "fold registerDef (e # kvs) s =
               fold registerDef kvs (s\<lparr> workerDefs := AList.update nm wd (workerDefs s) \<rparr>)"
      using e Some by (simp add: registerDef_asWorkerDef)
    have a: "acceptedDefs (JObject (e # kvs)) = (nm, wd) # acceptedDefs (JObject kvs)"
      using e Some by simp
    show ?thesis
      unfolding f a Cons.IH
      by (rule ext) (simp add: map_add_def AList.update_conv' split: option.splits)
  qed
qed

lemma workerDefs_applyInit:
  "map_of (workerDefs (applyInit msg s)) =
     map_of (workerDefs s) ++ map_of (rev (acceptedDefs (getp msg ''workers'')))"
proof (cases "getp msg ''workers''")
  case (JObject kvs)
  then show ?thesis
    using workerDefs_fold_registerDef [of kvs]
    by (simp add: applyInit_def Let_def split: jsval.splits jsnum.splits)
qed (simp_all add: applyInit_def Let_def split: jsval.splits jsnum.splits)

text \<open>
  C3, as the code has it.  On every \<^verbatim>\<open>control.init\<close>: when the message's
  \<^verbatim>\<open>routes\<close> field is an array, the route list is replaced by the normalized new
  list, and otherwise it is left as it was; the worker-definition map is merged, not
  replaced: the well-formed definitions of the message are stored over the old map,
  and a worker the message does not define (well formed) keeps the definition it had.
\<close>

theorem reinit_replaces_routes_merges_defs:
  "routes (applyInit msg s) =
     (if isArray (getp msg ''routes'') then normalizeRoutes (getp msg ''routes'') else routes s)
   \<and> map_of (workerDefs (applyInit msg s)) =
       map_of (workerDefs s) ++ map_of (rev (acceptedDefs (getp msg ''workers'')))
   \<and> (\<forall>w. w \<notin> fst ` set (acceptedDefs (getp msg ''workers'')) \<longrightarrow>
          map_of (workerDefs (applyInit msg s)) w = map_of (workerDefs s) w)"
proof -
  have kept: "map_of (workerDefs (applyInit msg s)) w = map_of (workerDefs s) w"
    if "w \<notin> fst ` set (acceptedDefs (getp msg ''workers''))" for w
  proof -
    have "map_of (rev (acceptedDefs (getp msg ''workers''))) w = None"
      using that by (simp add: map_of_eq_None_iff)
    then show ?thesis by (simp add: workerDefs_applyInit map_add_def)
  qed
  from routes_applyInit workerDefs_applyInit kept show ?thesis by blast
qed

text \<open>The second initialization after the first: the route to \<^verbatim>\<open>sig\<close> is gone, the
  definition of \<^verbatim>\<open>sig\<close> is still there, and \<^verbatim>\<open>kem\<close> has its new url.\<close>

lemma afterFirstInit_reached: "applyInit firstInit initialState = afterFirstInit"
  by (simp add: applyInit_def firstInit_def initialState_def afterFirstInit_def Let_def
        normalizeRoutes_def cleanRoutes_def asRoute_def longestFirst_def registerDef_def
        objectOr_def kemDef_def)

theorem reinit_replaces_routes_merges_defs_witness:
  "routes (applyInit secondInit afterFirstInit) = [\<lparr> prefix = ''/hx/kem'', worker = ''kem'' \<rparr>]
   \<and> ''sig'' \<notin> fst ` set (acceptedDefs (getp secondInit ''workers''))
   \<and> map_of (workerDefs (applyInit secondInit afterFirstInit)) ''sig''
       = Some (kemDef ''/workers/sig.js'')
   \<and> map_of (workerDefs (applyInit secondInit afterFirstInit)) ''kem''
       = Some (kemDef ''/workers/kem2.js'')"
proof -
  have a: "acceptedDefs (getp secondInit ''workers'') = [(''kem'', kemDef ''/workers/kem2.js'')]"
    by (simp add: secondInit_def asWorkerDef_def kemDef_def)
  have r: "normalizeRoutes (getp secondInit ''routes'') = [\<lparr> prefix = ''/hx/kem'', worker = ''kem'' \<rparr>]"
    by (simp add: secondInit_def normalizeRoutes_def cleanRoutes_def asRoute_def)
  have i: "isArray (getp secondInit ''routes'')"
    by (simp add: secondInit_def)
  show ?thesis
    using reinit_replaces_routes_merges_defs [of secondInit afterFirstInit]
    by (simp add: a r i afterFirstInit_def map_add_def)
qed

text \<open>
  Against C3 as stated (the worker-definition map is replaced, so that definitions
  absent from the new message are removed): after the two initializations the
  definition of \<^verbatim>\<open>sig\<close>, which the second message does not mention, is still in the map,
  and the acknowledgment counts two workers.
\<close>

theorem reinit_keeps_absent_def:
  "getp (getp secondInit ''workers'') ''sig'' = JUndefined
   \<and> map_of (workerDefs (run exampleBuiltins [RouterMessage firstInit, RouterMessage secondInit]
                            initialState)) ''sig''
       = Some (kemDef ''/workers/sig.js'')
   \<and> last (sent (run exampleBuiltins [RouterMessage firstInit, RouterMessage secondInit]
                   initialState))
       = ControlReady JNull [\<lparr> prefix = ''/hx/kem'', worker = ''kem'' \<rparr>] 2 30000"
proof -
  have 1: "onmessage exampleBuiltins firstInit initialState =
             send (ControlReady JNull (routes afterFirstInit) 2 30000) afterFirstInit"
    using afterFirstInit_reached
    by (simp add: onmessage_def orElse_def Let_def)
       (simp add: firstInit_def afterFirstInit_def initialState_def DEFAULT_TIMEOUT_MS_def
          numeral_2_eq_2)
  have 2: "applyInit secondInit (send m afterFirstInit) =
             send m (afterFirstInit
               \<lparr> routes := [\<lparr> prefix = ''/hx/kem'', worker = ''kem'' \<rparr>],
                 workerDefs := [(''kem'', kemDef ''/workers/kem2.js''),
                                (''sig'', kemDef ''/workers/sig.js'')] \<rparr>)" for m
    by (simp add: applyInit_def secondInit_def afterFirstInit_def Let_def send_def
          normalizeRoutes_def cleanRoutes_def asRoute_def registerDef_def objectOr_def kemDef_def)
  have k: "getp secondInit ''kind'' = JString ''control.init''"
    "getp secondInit ''id'' = JUndefined" "isObject secondInit" "truthy secondInit"
    by (simp_all add: secondInit_def)
  have 3: "onmessage exampleBuiltins secondInit (send m afterFirstInit) =
             send (ControlReady JNull [\<lparr> prefix = ''/hx/kem'', worker = ''kem'' \<rparr>] 2 30000)
               (send m (afterFirstInit
                 \<lparr> routes := [\<lparr> prefix = ''/hx/kem'', worker = ''kem'' \<rparr>],
                   workerDefs := [(''kem'', kemDef ''/workers/kem2.js''),
                                  (''sig'', kemDef ''/workers/sig.js'')] \<rparr>))" for m
    by (simp add: onmessage_def orElse_def Let_def k 2)
       (simp add: send_def afterFirstInit_def initialState_def DEFAULT_TIMEOUT_MS_def
          numeral_2_eq_2)
  have r: "run exampleBuiltins [RouterMessage firstInit, RouterMessage secondInit] initialState
             = onmessage exampleBuiltins secondInit
                 (onmessage exampleBuiltins firstInit initialState)"
    by (simp add: run_def)
  have u: "getp (getp secondInit ''workers'') ''sig'' = JUndefined"
    by (simp add: secondInit_def)
  show ?thesis
    unfolding r 1 3 using u by (simp add: send_def)
qed

section \<open>Properties: pending requests\<close>

lemma decimal_30000: "decimal 30000 = ''30000''"
  by (simp add: digitChar_def)

lemmas example_defs =
  kemRoute_def kemSession_def kemInit_def warmupRequest_def workerReady_def
  kemWorkerRequest_def pendingHistory_def pendingState_def kemDef_def kemRequest_def

lemma pendingState_reached:
  "run exampleBuiltins
     [RouterMessage kemInit, RouterMessage warmupRequest, WorkerMessage ''kem'' workerReady,
      RouterMessage kemRequest] initialState = pendingState"
proof -
  let ?s1 = "initialState\<lparr> routes := [kemRoute],
                workerDefs := [(''kem'', kemDef ''/workers/kem.js'')],
                sent := take 1 pendingHistory \<rparr>"
  let ?s2 = "?s1\<lparr> workers := [(''kem'', kemSession\<lparr> ready := False \<rparr>)],
                sent := take 4 pendingHistory \<rparr>"
  let ?s3 = "?s2\<lparr> workers := [(''kem'', kemSession)], sent := take 5 pendingHistory \<rparr>"
  have 1: "onmessage exampleBuiltins kemInit initialState = ?s1"
    by (simp add: onmessage_def orElse_def Let_def applyInit_def example_defs initialState_def
          normalizeRoutes_def cleanRoutes_def asRoute_def registerDef_def objectOr_def send_def
          DEFAULT_TIMEOUT_MS_def)
  have 2: "onmessage exampleBuiltins warmupRequest ?s1 = ?s2"
    by (simp add: onmessage_def orElse_def Let_def handleHxRequest_def matchRoute_def
          startsWith_def dispatchProtocolRequest_def ensureWorker_def sending example_defs
          initialState_def escapeHtml_def)
  have 3: "workerOnMessage ''kem'' workerReady ?s2 = ?s3"
    by (simp add: workerOnMessage_def handleWorkerMessage_def handleProtocolWorkerMessage_def
          orElse_def sending example_defs initialState_def)
  have 4: "onmessage exampleBuiltins kemRequest ?s3 = pendingState"
    by (simp add: onmessage_def orElse_def Let_def handleHxRequest_def matchRoute_def
          startsWith_def dispatchProtocolRequest_def ensureWorker_def setTimeout_def sending
          example_defs initialState_def objectOr_def exampleBuiltins_def upperAscii_def
          DEFAULT_TIMEOUT_MS_def workerRequest_def)
  have "run exampleBuiltins
     [RouterMessage kemInit, RouterMessage warmupRequest, WorkerMessage ''kem'' workerReady,
      RouterMessage kemRequest] initialState
      = onmessage exampleBuiltins kemRequest
          (workerOnMessage ''kem'' workerReady
             (onmessage exampleBuiltins warmupRequest
                (onmessage exampleBuiltins kemInit initialState)))"
    by (simp add: run_def)
  also have "\<dots> = pendingState"
    by (simp only: 1 2 3 4)
  finally show ?thesis .
qed

lemma wellFormed_pendingState: "wellFormed pendingState"
  using wellFormed_reachable [of exampleBuiltins] pendingState_reached by metis

text \<open>What a firing timer does when the request it was armed for is still pending.\<close>

lemma timerFired_pending:
  assumes "timers s tid = Some (rid, delay)" and "map_of (pending s) rid = Some p"
  shows "timerFired B tid s =
           s\<lparr> timers := (timers s)(tid := None, timeoutId p := None),
              pending := AList.delete rid (pending s),
              sent := sent s @
                [HxResponse rid 504
                   (divFail @ ''Request timed out in router after ''
                      @ numberToString B (Finite (of_int (requestTimeoutMs s))) @ ''ms.</div>'')
                   htmlHeaders] \<rparr>"
  using assms
  by (simp add: timerFired_def timerCallback_def clearPending_def Let_def sending)

text \<open>A \<^verbatim>\<open>worker.response\<close> from a native-mode session, by whether its id is pending.\<close>

lemma workerOnMessage_response:
  assumes "map_of (workers s) w = Some info" and "mode info \<noteq> ''legacy-liboqs''"
    and "getp msg ''kind'' = JString ''worker.response''"
  shows "workerOnMessage w msg s = handleProtocolWorkerMessage info msg s"
    and "isObject msg"
proof -
  obtain kvs where "msg = JObject kvs"
    using assms(3) by (cases msg) auto
  then show "workerOnMessage w msg s = handleProtocolWorkerMessage info msg s"
    and "isObject msg"
    using assms by (simp_all add: workerOnMessage_def handleWorkerMessage_def orElse_def)
qed


lemma response_pending:
  assumes "map_of (workers s) w = Some info" and "mode info \<noteq> ''legacy-liboqs''"
    and "getp msg ''kind'' = JString ''worker.response''"
    and "getp msg ''id'' = JString rid" and "rid \<noteq> []"
    and "map_of (pending s) rid = Some p"
  shows "workerOnMessage w msg s =
           s\<lparr> timers := (timers s)(timeoutId p := None),
              pending := AList.delete rid (pending s),
              sent := sent s @
                [HxResponse rid
                   (finiteOr (getp (objectOr (getp msg ''response'')) ''status'') 500)
                   (stringOr (getp (objectOr (getp msg ''response'')) ''body'') [])
                   (objectOr (getp (objectOr (getp msg ''response'')) ''headers''))] \<rparr>"
  using assms workerOnMessage_response [OF assms(1,2,3)]
  by (simp add: handleProtocolWorkerMessage_def Let_def clearPending_def sending)

text \<open>
  C6, as the code has it.  For every \<^verbatim>\<open>worker.response\<close> from a native-mode session
  whose id has a pending entry, the router deletes that entry, clears the entry's
  timer, and posts one message, an \<^verbatim>\<open>hx.response\<close> addressed to that id.  With
  \<open>resp\<close> the message's \<^verbatim>\<open>response\<close> field if that is an object and the empty object
  otherwise: the status is \<open>resp\<close>'s status if that is a finite number, else 500; the
  body is \<open>resp\<close>'s body if that is a string, else the empty string; the headers are
  \<open>resp\<close>'s headers if they are an object, else the empty object.
\<close>

theorem worker_response_forwarded:
  assumes "map_of (workers s) w = Some info" and "mode info \<noteq> ''legacy-liboqs''"
    and "getp msg ''kind'' = JString ''worker.response''"
    and "getp msg ''id'' = JString rid" and "rid \<noteq> []"
    and "map_of (pending s) rid = Some p"
    and "resp = (case getp msg ''response'' of JObject kvs \<Rightarrow> JObject kvs | _ \<Rightarrow> JObject [])"
  shows "workerOnMessage w msg s =
           s\<lparr> timers := (timers s)(timeoutId p := None),
              pending := AList.delete rid (pending s),
              sent := sent s @
                [HxResponse rid
                   (case getp resp ''status'' of JNumber (Finite q) \<Rightarrow> q | _ \<Rightarrow> 500)
                   (case getp resp ''body'' of JString b \<Rightarrow> b | _ \<Rightarrow> [])
                   (case getp resp ''headers'' of JObject h \<Rightarrow> JObject h | _ \<Rightarrow> JObject [])] \<rparr>
       \<and> map_of (pending (workerOnMessage w msg s)) rid = None
       \<and> timers (workerOnMessage w msg s) (timeoutId p) = None"
proof -
  have r: "objectOr (getp msg ''response'') = resp"
    using assms(7) by (simp add: objectOr_def split: jsval.splits)
  have st: "finiteOr v 500 = (case v of JNumber (Finite q) \<Rightarrow> q | _ \<Rightarrow> 500)" for v
  proof (cases v)
    case (JNumber n)
    then show ?thesis by (cases n) simp_all
  qed simp_all
  have bo: "stringOr v [] = (case v of JString b \<Rightarrow> b | _ \<Rightarrow> [])" for v
    by (cases v) simp_all
  have hs: "objectOr v = (case v of JObject h \<Rightarrow> JObject h | _ \<Rightarrow> JObject [])" for v
    by (cases v) (simp_all add: objectOr_def)
  have run: "workerOnMessage w msg s =
           s\<lparr> timers := (timers s)(timeoutId p := None),
              pending := AList.delete rid (pending s),
              sent := sent s @
                [HxResponse rid
                   (case getp resp ''status'' of JNumber (Finite q) \<Rightarrow> q | _ \<Rightarrow> 500)
                   (case getp resp ''body'' of JString b \<Rightarrow> b | _ \<Rightarrow> [])
                   (case getp resp ''headers'' of JObject h \<Rightarrow> JObject h | _ \<Rightarrow> JObject [])] \<rparr>"
    using response_pending [OF assms(1-6)] unfolding r st bo
    using hs [of "getp resp ''headers''"] by simp
  show ?thesis
    unfolding run by (simp add: AList.delete_conv')
qed

theorem worker_response_forwarded_witness:
  "workerOnMessage ''kem'' goodResponse pendingState =
     pendingState\<lparr> timers := Map.empty, pending := [],
       sent := pendingHistory @
         [HxResponse ''r1'' 201 ''<p>ok</p>'' (JObject [(''X-Kem'', JString ''1'')])] \<rparr>"
proof -
  have 1: "map_of (workers pendingState) ''kem'' = Some kemSession"
    and 2: "mode kemSession \<noteq> ''legacy-liboqs''"
    and 3: "getp goodResponse ''kind'' = JString ''worker.response''"
    and 4: "getp goodResponse ''id'' = JString ''r1''"
    and 6: "map_of (pending pendingState) ''r1'' = Some \<lparr> workerName = ''kem'', timeoutId = 1 \<rparr>"
    and 7: "JObject [(''status'', JNumber (Finite 201)), (''body'', JString ''<p>ok</p>''),
                     (''headers'', JObject [(''X-Kem'', JString ''1'')])]
              = (case getp goodResponse ''response'' of JObject kvs \<Rightarrow> JObject kvs
                  | _ \<Rightarrow> JObject [])"
    by (simp_all add: pendingState_def kemSession_def goodResponse_def)
  show ?thesis
    using worker_response_forwarded [OF 1 2 3 4 _ 6 7]
    by (simp add: pendingState_def)
qed

text \<open>
  Against C6 as stated (the response carries the body the worker supplied): the
  worker answers with an object as body, and the response carries the empty string.
\<close>

theorem worker_body_not_forwarded:
  "getp (getp objectBodyResponse ''response'') ''body'' = JObject [(''ok'', JBool True)]
   \<and> sent (workerOnMessage ''kem'' objectBodyResponse pendingState) =
       pendingHistory @ [HxResponse ''r1'' 200 [] (JObject [])]"
  by (simp add: workerOnMessage_def handleWorkerMessage_def handleProtocolWorkerMessage_def
        orElse_def Let_def objectOr_def clearPending_def sending pendingState_def
        kemSession_def objectBodyResponse_def)



section \<open>Properties: duplicate request ids\<close>

text \<open>What \<^verbatim>\<open>dispatchProtocolRequest\<close> does on a ready session.\<close>

lemma dispatchProtocol_ready:
  assumes "ensureWorker (worker rt) s = Inr (info, s1)" and "ready info"
  shows "dispatchProtocolRequest rid rt reqMsg s =
           Inr (s1\<lparr> timers := (timers s)(nextTimeoutId s \<mapsto> (rid, requestTimeoutMs s)),
                    nextTimeoutId := Suc (nextTimeoutId s),
                    pending := AList.update rid
                       \<lparr> workerName = worker rt, timeoutId = nextTimeoutId s \<rparr> (pending s),
                    sent := sent s1 @ [PostToWorker (name info) (workerRequest rid reqMsg)] \<rparr>)"
  using assms ensureWorker_frame [OF assms(1)]
  by (simp add: dispatchProtocolRequest_def setTimeout_def Let_def send_def)

text \<open>A stray timer stays stray, and armed, through everything but its own firing.\<close>

lemma strayTimer_cong:
  assumes "pending s' = pending s" and "timers s' = timers s"
    and "nextTimeoutId s' = nextTimeoutId s"
  shows "strayTimer tid v s' = strayTimer tid v s"
  using assms by (simp add: strayTimer_def)

lemma strayTimer_fields [simp]:
  "strayTimer tid v (s\<lparr> sent := ms \<rparr>) = strayTimer tid v s"
  "strayTimer tid v (s\<lparr> routes := rs \<rparr>) = strayTimer tid v s"
  "strayTimer tid v (s\<lparr> workerDefs := ds \<rparr>) = strayTimer tid v s"
  "strayTimer tid v (s\<lparr> workers := ws \<rparr>) = strayTimer tid v s"
  "strayTimer tid v (s\<lparr> activeLegacyByWorker := sl \<rparr>) = strayTimer tid v s"
  "strayTimer tid v (s\<lparr> requestTimeoutMs := n \<rparr>) = strayTimer tid v s"
  by (simp_all add: strayTimer_def)

lemma strayTimer_send [simp]: "strayTimer tid v (send m s) = strayTimer tid v s"
  by (simp add: send_def)

lemma strayTimer_sendHxResponse [simp]:
  "strayTimer tid v (sendHxResponse rid st b h s) = strayTimer tid v s"
  by (simp add: sendHxResponse_def)

lemma strayTimer_sendProtocolError [simp]:
  "strayTimer tid v (sendProtocolError c m rid s) = strayTimer tid v s"
  by (simp add: sendProtocolError_def)

lemma strayTimer_sendEvent [simp]:
  "strayTimer tid v (sendEvent rid e d s) = strayTimer tid v s"
  by (simp add: sendEvent_def)

lemma strayTimer_registerDef [simp]: "strayTimer tid v (registerDef e s) = strayTimer tid v s"
  by (cases e) (simp add: registerDef_def split: jsval.splits)

lemma strayTimer_fold_registerDef [simp]:
  "strayTimer tid v (fold registerDef kvs s) = strayTimer tid v s"
  by (induction kvs arbitrary: s) simp_all

lemma strayTimer_applyInit [simp]: "strayTimer tid v (applyInit msg s) = strayTimer tid v s"
  by (simp add: applyInit_def Let_def split: jsval.splits jsnum.splits)

lemma strayTimer_clearPending:
  "strayTimer tid v s \<Longrightarrow> strayTimer tid v (clearPending r s)"
  unfolding strayTimer_def clearPending_def
  by (auto simp: AList.delete_conv' split: option.splits if_splits)

lemma strayTimer_failOne: "strayTimer tid v s \<Longrightarrow> strayTimer tid v (failOne w reason e s)"
  by (cases e) (simp add: failOne_def strayTimer_clearPending)

lemma strayTimer_fold_failOne:
  "strayTimer tid v s \<Longrightarrow> strayTimer tid v (fold (failOne w reason) es s)"
  by (induction es arbitrary: s) (simp_all add: strayTimer_failOne)

lemma strayTimer_workerOnError:
  "strayTimer tid v s \<Longrightarrow> strayTimer tid v (workerOnError w m s)"
  by (simp add: workerOnError_def Let_def failPendingForWorker_def strayTimer_fold_failOne
        split: option.splits)

lemma strayTimer_ensureWorker:
  assumes "ensureWorker w s = Inr (info, s1)"
  shows "strayTimer tid v s1 = strayTimer tid v s"
  using ensureWorker_frame(1,2,3) [OF assms] by (rule strayTimer_cong)

lemma strayTimer_handleProtocolWorkerMessage:
  "strayTimer tid v s \<Longrightarrow> strayTimer tid v (handleProtocolWorkerMessage info msg s)"
  by (simp add: handleProtocolWorkerMessage_def Let_def strayTimer_clearPending)

lemma strayTimer_handleLegacyLiboqsMessage:
  "strayTimer tid v s \<Longrightarrow> strayTimer tid v (handleLegacyLiboqsMessage info msg s)"
  by (simp add: handleLegacyLiboqsMessage_def Let_def)

lemma strayTimer_workerOnMessage:
  "strayTimer tid v s \<Longrightarrow> strayTimer tid v (workerOnMessage w dat s)"
  by (simp add: workerOnMessage_def handleWorkerMessage_def
        strayTimer_handleProtocolWorkerMessage strayTimer_handleLegacyLiboqsMessage
      split: option.splits)

lemma strayTimer_dispatchProtocolRequest:
  assumes "strayTimer tid v s" and "dispatchProtocolRequest rid rt reqMsg s = Inr s'"
  shows "strayTimer tid v s'"
proof -
  obtain info s1 where e: "ensureWorker (worker rt) s = Inr (info, s1)"
    using assms(2) by (auto simp: dispatchProtocolRequest_def split: sum.splits)
  have s1: "strayTimer tid v s1" using strayTimer_ensureWorker [OF e] assms(1) by simp
  show ?thesis
  proof (cases "ready info")
    case False
    then show ?thesis using assms(2) e s1 by (auto simp: dispatchProtocolRequest_def)
  next
    case True
    have "strayTimer tid v
            (s1\<lparr> timers := (timers s1)(nextTimeoutId s1 \<mapsto> (rid, requestTimeoutMs s1)),
                 nextTimeoutId := Suc (nextTimeoutId s1),
                 pending := AList.update rid
                    \<lparr> workerName = worker rt, timeoutId = nextTimeoutId s1 \<rparr> (pending s1) \<rparr>)"
      using s1 unfolding strayTimer_def
      by (auto simp: AList.update_conv' split: if_splits)
    then show ?thesis
      using assms(2) e True
      by (auto simp: dispatchProtocolRequest_def setTimeout_def Let_def)
  qed
qed

lemma strayTimer_dispatchLegacyLiboqsRequest:
  assumes "strayTimer tid v s" and "dispatchLegacyLiboqsRequest rid rt reqMsg s = Inr s'"
  shows "strayTimer tid v s'"
proof -
  obtain info s1 where e: "ensureWorker (worker rt) s = Inr (info, s1)"
    using assms(2) by (auto simp: dispatchLegacyLiboqsRequest_def split: sum.splits)
  have s1: "strayTimer tid v s1" using strayTimer_ensureWorker [OF e] assms(1) by simp
  show ?thesis
    using assms(2) e s1
    by (auto simp: dispatchLegacyLiboqsRequest_def Let_def split: if_splits)
qed

lemma strayTimer_handleHxRequest:
  assumes "strayTimer tid v s"
  shows "strayTimer tid v (handleHxRequest B msg s)"
  using assms strayTimer_dispatchProtocolRequest [OF assms]
    strayTimer_dispatchLegacyLiboqsRequest [OF assms]
  by (auto simp: handleHxRequest_def Let_def split: option.splits sum.splits)

lemma strayTimer_onmessage:
  "strayTimer tid v s \<Longrightarrow> strayTimer tid v (onmessage B dat s)"
  by (simp add: onmessage_def Let_def strayTimer_handleHxRequest)

lemma strayTimer_timerFired:
  assumes "strayTimer tid v s" and "tid' \<noteq> tid"
  shows "strayTimer tid v (timerFired B tid' s)"
proof (cases "timers s tid'")
  case None
  then show ?thesis using assms by (simp add: timerFired_def)
next
  case (Some a)
  obtain rid delay where a: "a = (rid, delay)" by (cases a)
  have "strayTimer tid v (s\<lparr> timers := (timers s)(tid' := None) \<rparr>)"
    using assms by (simp add: strayTimer_def)
  then show ?thesis
    using Some a by (simp add: timerFired_def timerCallback_def Let_def strayTimer_clearPending)
qed

lemma strayTimer_step:
  assumes "strayTimer tid v s" and "ev \<noteq> TimerFired tid"
  shows "strayTimer tid v (step B ev s)"
  using assms
  by (cases ev)
     (auto simp: strayTimer_onmessage strayTimer_workerOnMessage strayTimer_workerOnError
        strayTimer_timerFired)

lemma strayTimer_run:
  assumes "strayTimer tid v s" and "TimerFired tid \<notin> set evs"
  shows "strayTimer tid v (run B evs s)"
  using assms unfolding run_def
  by (induction evs arbitrary: s) (auto simp: strayTimer_step)

text \<open>
  C9.  A request dispatched to a ready native-mode worker while its id is already
  pending (with the first request's timer still armed) is not rejected: the dispatch
  returns without posting any \<^verbatim>\<open>hx.response\<close>; the pending entry of the id now
  holds the new worker name and a new timer; the old timer is still armed, and stays
  armed through every sequence of events in which it does not fire, so nothing ever
  cancels it; and when it fires, the router deletes the new entry (cancelling the new
  timer) and posts a response with status 504 for the id.
\<close>

theorem duplicate_id_overwrites_pending:
  assumes "wellFormed s"
    and "ensureWorker (worker rt) s = Inr (info, s1)" and "ready info"
    and "map_of (pending s) rid = Some old"
    and "timers s (timeoutId old) = Some (rid, delay)"
  shows "case dispatchProtocolRequest rid rt reqMsg s of
           Inl e \<Rightarrow> False
         | Inr s2 \<Rightarrow>
             hxResponses (sent s2) = hxResponses (sent s)
           \<and> map_of (pending s2) rid
               = Some \<lparr> workerName = worker rt, timeoutId = nextTimeoutId s \<rparr>
           \<and> timers s2 (nextTimeoutId s) = Some (rid, requestTimeoutMs s)
           \<and> nextTimeoutId s \<noteq> timeoutId old
           \<and> timers s2 (timeoutId old) = Some (rid, delay)
           \<and> (\<forall>evs. TimerFired (timeoutId old) \<notin> set evs \<longrightarrow>
                  timers (run B evs s2) (timeoutId old) = Some (rid, delay))
           \<and> timerFired B (timeoutId old) s2 =
               s2\<lparr> timers := (timers s2)(timeoutId old := None, nextTimeoutId s := None),
                   pending := AList.delete rid (pending s2),
                   sent := sent s2 @
                     [HxResponse rid 504
                        (divFail @ ''Request timed out in router after ''
                           @ numberToString B (Finite (of_int (requestTimeoutMs s)))
                           @ ''ms.</div>'')
                        htmlHeaders] \<rparr>
           \<and> map_of (pending (timerFired B (timeoutId old) s2)) rid = None"
proof -
  have d: "dispatchProtocolRequest rid rt reqMsg s =
           Inr (s1\<lparr> timers := (timers s)(nextTimeoutId s \<mapsto> (rid, requestTimeoutMs s)),
                    nextTimeoutId := Suc (nextTimeoutId s),
                    pending := AList.update rid
                       \<lparr> workerName = worker rt, timeoutId = nextTimeoutId s \<rparr> (pending s),
                    sent := sent s1 @ [PostToWorker (name info) (workerRequest rid reqMsg)] \<rparr>)"
    (is "_ = Inr ?s2")
    using dispatchProtocol_ready [OF assms(2,3)] by blast
  have below: "timeoutId old < nextTimeoutId s"
    using assms(1,4) unfolding wellFormed_def timersBelow_def by blast
  have others: "timeoutId p \<noteq> timeoutId old"
    if "map_of (pending s) r = Some p" and "r \<noteq> rid" for r p
    using assms(1,4) that unfolding wellFormed_def timersDistinct_def by metis
  have 1: "hxResponses (sent ?s2) = hxResponses (sent s)"
    using ensureWorker_frame(8) [OF assms(2)] by (simp add: hxResponses_def)
  have 2: "map_of (pending ?s2) rid
             = Some \<lparr> workerName = worker rt, timeoutId = nextTimeoutId s \<rparr>"
    by (simp add: AList.update_conv')
  have 3: "timers ?s2 (nextTimeoutId s) = Some (rid, requestTimeoutMs s)"
    by simp
  have 4: "nextTimeoutId s \<noteq> timeoutId old"
    using below by simp
  have 5: "timers ?s2 (timeoutId old) = Some (rid, delay)"
    using assms(5) 4 by simp
  have stray: "strayTimer (timeoutId old) (rid, delay) ?s2"
    unfolding strayTimer_def using 5 below others
    by (auto simp: AList.update_conv' split: if_splits)
  have 6: "timers (run B evs ?s2) (timeoutId old) = Some (rid, delay)"
    if "TimerFired (timeoutId old) \<notin> set evs" for evs
    using strayTimer_run [OF stray that, of B] by (simp add: strayTimer_def)
  have 7: "timerFired B (timeoutId old) ?s2 =
               ?s2\<lparr> timers := (timers ?s2)(timeoutId old := None, nextTimeoutId s := None),
                   pending := AList.delete rid (pending ?s2),
                   sent := sent ?s2 @
                     [HxResponse rid 504
                        (divFail @ ''Request timed out in router after ''
                           @ numberToString B (Finite (of_int (requestTimeoutMs s)))
                           @ ''ms.</div>'')
                        htmlHeaders] \<rparr>"
    using timerFired_pending [OF 5 2, of B] ensureWorker_frame(5) [OF assms(2)] by simp
  have 8: "map_of (pending (timerFired B (timeoutId old) ?s2)) rid = None"
    unfolding 7 by (simp add: AList.delete_conv')
  show ?thesis
    unfolding d using 1 2 3 4 5 6 7 8 by simp
qed

text \<open>The second request \<^verbatim>\<open>r1\<close> on \<open>pendingState\<close>, and then the first timer.\<close>

theorem duplicate_id_overwrites_pending_witness:
  "dispatchProtocolRequest ''r1'' kemRoute kemRequest pendingState = Inr duplicateState
   \<and> map_of (pending duplicateState) ''r1'' = Some \<lparr> workerName = ''kem'', timeoutId = 2 \<rparr>
   \<and> timers duplicateState 1 = Some (''r1'', 30000)
   \<and> timerFired exampleBuiltins 1 duplicateState =
       duplicateState
         \<lparr> timers := Map.empty, pending := [],
           sent := sent duplicateState @
             [HxResponse ''r1'' 504
                (divFail @ ''Request timed out in router after 30000ms.</div>'')
                htmlHeaders] \<rparr>"
proof -
  have w: "wellFormed pendingState" by (rule wellFormed_pendingState)
  have e: "ensureWorker (worker kemRoute) pendingState = Inr (kemSession, pendingState)"
    by (simp add: ensureWorker_def pendingState_def kemRoute_def)
  have r: "ready kemSession" by (simp add: kemSession_def)
  have p: "map_of (pending pendingState) ''r1'' = Some \<lparr> workerName = ''kem'', timeoutId = 1 \<rparr>"
    by (simp add: pendingState_def)
  have t: "timers pendingState (timeoutId \<lparr> workerName = ''kem'', timeoutId = 1 \<rparr>)
             = Some (''r1'', 30000)"
    by (simp add: pendingState_def)
  have d: "dispatchProtocolRequest ''r1'' kemRoute kemRequest pendingState = Inr duplicateState"
    by (simp add: dispatchProtocolRequest_def e r setTimeout_def Let_def send_def objectOr_def
          duplicateState_def workerRequest_def)
       (simp add: pendingState_def kemRoute_def kemSession_def kemRequest_def
          kemWorkerRequest_def fun_upd_twist)
  have n: "numberToString exampleBuiltins (Finite (of_int (requestTimeoutMs pendingState)))
             = ''30000''"
    using decimal_30000 by (simp add: exampleBuiltins_def printInteger_def pendingState_def)
  have f: "nextTimeoutId pendingState = 2" "pending duplicateState =
      [(''r1'', \<lparr> workerName = ''kem'', timeoutId = 2 \<rparr>)]"
    "timers duplicateState = [1 \<mapsto> (''r1'', 30000), 2 \<mapsto> (''r1'', 30000)]"
    by (simp_all add: pendingState_def duplicateState_def)
  from duplicate_id_overwrites_pending
         [OF w e r p t, where reqMsg = kemRequest and B = exampleBuiltins]
  show ?thesis
    unfolding d by (simp add: n f)
qed

section \<open>Properties: the legacy slot\<close>




text \<open>Which handlers touch the legacy slots.\<close>

lemma slots_registerDef [simp]:
  "activeLegacyByWorker (registerDef e s) = activeLegacyByWorker s"
  by (cases e) (simp add: registerDef_def split: jsval.splits)

lemma slots_fold_registerDef [simp]:
  "activeLegacyByWorker (fold registerDef kvs s) = activeLegacyByWorker s"
  by (induction kvs arbitrary: s) simp_all

lemma slots_applyInit [simp]: "activeLegacyByWorker (applyInit msg s) = activeLegacyByWorker s"
  by (simp add: applyInit_def Let_def split: jsval.splits jsnum.splits)

lemma slots_send [simp]:
  "activeLegacyByWorker (send m s) = activeLegacyByWorker s"
  "activeLegacyByWorker (sendHxResponse rid st b h s) = activeLegacyByWorker s"
  "activeLegacyByWorker (sendProtocolError c t r s) = activeLegacyByWorker s"
  "activeLegacyByWorker (sendEvent r e d s) = activeLegacyByWorker s"
  by (simp_all add: sending)

lemma slots_clearPending [simp]:
  "activeLegacyByWorker (clearPending r s) = activeLegacyByWorker s"
  by (simp add: clearPending_def split: option.splits)

lemma slots_failOne [simp]:
  "activeLegacyByWorker (failOne w reason e s) = activeLegacyByWorker s"
  by (cases e) (simp add: failOne_def)

lemma slots_fold_failOne [simp]:
  "activeLegacyByWorker (fold (failOne w reason) es s) = activeLegacyByWorker s"
  by (induction es arbitrary: s) simp_all

lemma slots_workerOnError [simp]:
  "activeLegacyByWorker (workerOnError w m s) = activeLegacyByWorker s"
  by (simp add: workerOnError_def Let_def failPendingForWorker_def split: option.splits)

lemma slots_timerFired [simp]:
  "activeLegacyByWorker (timerFired B tid s) = activeLegacyByWorker s"
  by (simp add: timerFired_def timerCallback_def Let_def split: option.splits prod.splits)

lemma slots_handleProtocolWorkerMessage [simp]:
  "activeLegacyByWorker (handleProtocolWorkerMessage info msg s) = activeLegacyByWorker s"
  by (simp add: handleProtocolWorkerMessage_def Let_def)












end
